theory Spec2Isabelle
  imports Complex_Main
begin

section \<open>JavaScript values\<close>

text \<open>
  The core file \<^verbatim>\<open>src/core/origincore.ts\<close> validates untyped input with zod schemas
  and keeps pages, section types and templates in three module-level registries.
  Untyped input (a parameter of type \<^verbatim>\<open>unknown\<close>, the payload of a section) is a
  JSON-like tree, with \<^verbatim>\<open>undefined\<close> as a value of its own.  A finite number is a
  rational; the three non-finite numbers are constructors.  An object is its list of own
  enumerable properties in insertion order.
\<close>

datatype jsnum = Finite rat | PosInfinity | NegInfinity | NaN

datatype json =
    JUndefined
  | JNull
  | JBool bool
  | JNum jsnum
  | JStr string
  | JArr "json list"
  | JObj "(string \<times> json) list"

subsection \<open>Errors\<close>

text \<open>
  \<^verbatim>\<open>ValidationError(message, code, details?)\<close> keeps its message and its code; the
  details (zod's issue list) are not modelled.  \<^verbatim>\<open>Error\<close> is the generic error the
  registries throw, \<^verbatim>\<open>TypeError\<close> and \<^verbatim>\<open>SyntaxError\<close> are the engine's.
  A function that throws returns \<open>Inl\<close> with the error and the state at the throw.
\<close>

datatype error =
    ValidationError (message: string) (code: string)
  | Error string
  | TypeError string
  | SyntaxError string

subsection \<open>Engine and library functions\<close>

text \<open>
  What the JavaScript engine and the zod library decide on strings and numbers is not
  code of the repository.  These functions are taken as parameters, and every theorem
  holds for each choice of them: \<^verbatim>\<open>new URL(s)\<close> succeeding, zod's datetime regular
  expression, \<^verbatim>\<open>Number.prototype.toString\<close>, \<^verbatim>\<open>crypto.randomUUID()\<close> and
  \<^verbatim>\<open>new Date().toISOString()\<close> (the latter two indexed by the number of draws made so
  far), and the composite \<^verbatim>\<open>JSON.parse(JSON.stringify(x).replace(re, f))\<close>.  Its
  callback \<open>f\<close> is \<open>None\<close> where it throws; the composite is \<open>Inl\<close> with the error when
  the callback throws on a placeholder of the text or the replaced text no longer parses.
\<close>

record builtins =
  isUrl :: "string \<Rightarrow> bool"
  isDatetime :: "string \<Rightarrow> bool"
  numberToString :: "jsnum \<Rightarrow> string"
  randomUUID :: "nat \<Rightarrow> string"
  toISOString :: "nat \<Rightarrow> string"
  jsonReplace :: "(string \<Rightarrow> string option) \<Rightarrow> json \<Rightarrow> error + json"

text \<open>Reading \<^verbatim>\<open>obj[key]\<close> on a tree: the first own property of that name, else \<^verbatim>\<open>undefined\<close>.\<close>

fun getProp :: "json \<Rightarrow> string \<Rightarrow> json" where
  "getProp (JObj kvs) k = (case map_of kvs k of Some v \<Rightarrow> v | None \<Rightarrow> JUndefined)"
| "getProp _ k = JUndefined"

text \<open>JavaScript truthiness, as tested by \<^verbatim>\<open>if (x)\<close> and \<^verbatim>\<open>!x\<close>.\<close>

fun truthy :: "json \<Rightarrow> bool" where
  "truthy JUndefined = False"
| "truthy JNull = False"
| "truthy (JBool b) = b"
| "truthy (JNum n) = (n \<noteq> NaN \<and> n \<noteq> Finite 0)"
| "truthy (JStr s) = (s \<noteq> [])"
| "truthy (JArr _) = True"
| "truthy (JObj _) = True"

fun intercalate :: "string \<Rightarrow> string list \<Rightarrow> string" where
  "intercalate sep [] = []"
| "intercalate sep [x] = x"
| "intercalate sep (x # y # ys) = x @ sep @ intercalate sep (y # ys)"

text \<open>
  The string a template literal \<^verbatim>\<open>`${v}`\<close> or \<^verbatim>\<open>String(v)\<close> puts in for a value;
  \<open>None\<close> where the conversion throws a \<^verbatim>\<open>TypeError\<close>.  An object is converted by
  its \<^verbatim>\<open>toString\<close> and then its \<^verbatim>\<open>valueOf\<close>.  An own property \<^verbatim>\<open>toString\<close> of a
  tree is no function and hides the inherited one; \<^verbatim>\<open>valueOf\<close>, own or inherited, then
  yields no primitive, and the conversion throws.  Without it the inherited
  \<^verbatim>\<open>Object.prototype.toString\<close> answers \<^verbatim>\<open>[object Object]\<close>.  An array is joined:
  \<^verbatim>\<open>null\<close> and \<^verbatim>\<open>undefined\<close> elements are the empty string, the others are
  converted in turn.
\<close>

fun toString :: "builtins \<Rightarrow> json \<Rightarrow> string option" where
  "toString B JUndefined = Some ''undefined''"
| "toString B JNull = Some ''null''"
| "toString B (JBool b) = Some (if b then ''true'' else ''false'')"
| "toString B (JNum n) = Some (numberToString B n)"
| "toString B (JStr s) = Some s"
| "toString B (JArr xs) =
     map_option (intercalate '','')
       (those (map (\<lambda>x. if x = JUndefined \<or> x = JNull then Some [] else toString B x) xs))"
| "toString B (JObj kvs) =
     (if ''toString'' \<in> fst ` set kvs then None else Some ''[object Object]'')"

text \<open>The \<^verbatim>\<open>TypeError\<close> of a conversion that throws.\<close>

definition notPrimitive :: string where
  "notPrimitive = ''Cannot convert object to primitive value''"

text \<open>Decimal digits of an array index, for \<^verbatim>\<open>`INVALID_SECTION_${index}`\<close>.\<close>

fun digits :: "nat \<Rightarrow> string" where
  "digits n =
     (if n < 10 then [''0123456789'' ! n]
      else digits (n div 10) @ [''0123456789'' ! (n mod 10)])"

declare digits.simps [simp del]

section \<open>Schemas and parsing\<close>

text \<open>
  The zod schemas of the source are values of a datatype, one constructor per combinator
  the source uses, and \<open>parse\<close> is \<^verbatim>\<open>safeParse\<close> as zod 3 runs it: the result is the
  parsed value, or \<open>None\<close> when there is an issue (the issue list is not modelled).
  \<^item> \<^verbatim>\<open>z.object\<close> takes an object, parses \<^verbatim>\<open>data[key]\<close> for each key of the shape and
    keeps the key when it is in the input or its parsed value is defined; with
    \<^verbatim>\<open>.strict()\<close> a key outside the shape is an issue, without it the key is dropped.
  \<^item> \<^verbatim>\<open>z.record\<close> parses the value of every key and drops the key \<^verbatim>\<open>__proto__\<close>.
  \<^item> \<^verbatim>\<open>z.discriminatedUnion\<close> reads the discriminator and parses with the option
    whose literal it is.
  \<^item> \<^verbatim>\<open>.optional()\<close> accepts \<^verbatim>\<open>undefined\<close>; \<^verbatim>\<open>.default(d)\<close> parses \<open>d\<close> in
    place of \<^verbatim>\<open>undefined\<close>; \<^verbatim>\<open>.refine(f)\<close> runs \<open>f\<close> on the parsed value.
  \<^item> \<^verbatim>\<open>z.number()\<close> refuses \<^verbatim>\<open>NaN\<close>; \<^verbatim>\<open>.int()\<close> is \<^verbatim>\<open>Number.isInteger\<close>.
\<close>

datatype stringCheck = Url | Datetime

datatype numberCheck = IsInt | IsPositive | AtLeast rat | AtMost rat

datatype unknownKeys = Strip | Strict

datatype schema =
    ZAny
  | ZUnknown
  | ZString "stringCheck list"
  | ZNumber "numberCheck list"
  | ZBoolean
  | ZLiteral string
  | ZEnum "string list"
  | ZArray schema
  | ZTuple "schema list"
  | ZRecord schema
  | ZObject unknownKeys "(string \<times> schema) list"
  | ZOptional schema
  | ZDefault schema json
  | ZDiscriminatedUnion string "schema list"
  | ZRefine schema "json \<Rightarrow> bool"

fun stringCheckOk :: "builtins \<Rightarrow> string \<Rightarrow> stringCheck \<Rightarrow> bool" where
  "stringCheckOk B s Url = isUrl B s"
| "stringCheckOk B s Datetime = isDatetime B s"

fun lessEq :: "jsnum \<Rightarrow> jsnum \<Rightarrow> bool" where
  "lessEq NaN _ = False"
| "lessEq _ NaN = False"
| "lessEq NegInfinity _ = True"
| "lessEq _ PosInfinity = True"
| "lessEq (Finite a) (Finite b) = (a \<le> b)"
| "lessEq _ _ = False"

fun numberCheckOk :: "jsnum \<Rightarrow> numberCheck \<Rightarrow> bool" where
  "numberCheckOk n IsInt = (case n of Finite q \<Rightarrow> of_int \<lfloor>q\<rfloor> = q | _ \<Rightarrow> False)"
| "numberCheckOk n IsPositive = (lessEq (Finite 0) n \<and> n \<noteq> Finite 0)"
| "numberCheckOk n (AtLeast m) = lessEq (Finite m) n"
| "numberCheckOk n (AtMost m) = lessEq n (Finite m)"

fun discriminatorOf :: "string \<Rightarrow> schema \<Rightarrow> string option" where
  "discriminatorOf d (ZObject uk shape) =
     (case map_of shape d of Some (ZLiteral l) \<Rightarrow> Some l | _ \<Rightarrow> None)"
| "discriminatorOf d _ = None"

definition objectOutput :: "(string \<times> json) list \<Rightarrow> (string \<times> json) list \<Rightarrow> (string \<times> json) list" where
  "objectOutput kvs parsed = filter (\<lambda>(k, w). w \<noteq> JUndefined \<or> k \<in> fst ` set kvs) parsed"

lemma shape_size [termination_simp]:
  "(k, s) \<in> set shape \<Longrightarrow> size s < Suc (size_list (size_prod (\<lambda>_. 0) size) shape)"
  by (induction shape) auto

lemma find_size: "find P xs = Some x \<Longrightarrow> size x \<le> size_list size xs"
  by (induction xs) (auto split: if_splits)

function (sequential) parse :: "builtins \<Rightarrow> schema \<Rightarrow> json \<Rightarrow> json option" where
  "parse B ZAny v = Some v"
| "parse B ZUnknown v = Some v"
| "parse B (ZString checks) v =
     (case v of JStr s \<Rightarrow> if list_all (stringCheckOk B s) checks then Some v else None
      | _ \<Rightarrow> None)"
| "parse B (ZNumber checks) v =
     (case v of JNum n \<Rightarrow> if n \<noteq> NaN \<and> list_all (numberCheckOk n) checks then Some v else None
      | _ \<Rightarrow> None)"
| "parse B ZBoolean v = (case v of JBool b \<Rightarrow> Some v | _ \<Rightarrow> None)"
| "parse B (ZLiteral l) v = (if v = JStr l then Some v else None)"
| "parse B (ZEnum values) v =
     (case v of JStr s \<Rightarrow> if s \<in> set values then Some v else None | _ \<Rightarrow> None)"
| "parse B (ZArray s) v =
     (case v of JArr xs \<Rightarrow> map_option JArr (those (map (parse B s) xs)) | _ \<Rightarrow> None)"
| "parse B (ZTuple items) v =
     (case v of
        JArr xs \<Rightarrow>
          if length xs \<noteq> length items then None
          else map_option JArr (those (map (\<lambda>(s, x). parse B s x) (zip items xs)))
      | _ \<Rightarrow> None)"
| "parse B (ZRecord s) v =
     (case v of
        JObj kvs \<Rightarrow>
          map_option (\<lambda>ps. JObj (filter (\<lambda>(k, w). k \<noteq> ''__proto__'') ps))
            (those (map (\<lambda>(k, x). map_option (Pair k) (parse B s x)) kvs))
      | _ \<Rightarrow> None)"
| "parse B (ZObject uk shape) v =
     (case v of
        JObj kvs \<Rightarrow>
          if uk = Strict \<and> (\<exists>k \<in> fst ` set kvs. k \<notin> fst ` set shape) then None
          else map_option (\<lambda>ps. JObj (objectOutput kvs ps))
                 (those (map (\<lambda>(k, s). map_option (Pair k) (parse B s (getProp v k))) shape))
      | _ \<Rightarrow> None)"
| "parse B (ZOptional s) v = (if v = JUndefined then Some JUndefined else parse B s v)"
| "parse B (ZDefault s d) v = parse B s (if v = JUndefined then d else v)"
| "parse B (ZDiscriminatedUnion d options) v =
     (case v of
        JObj kvs \<Rightarrow>
          (case getProp v d of
             JStr l \<Rightarrow>
               (case find (\<lambda>opt. discriminatorOf d opt = Some l) options of
                  Some opt \<Rightarrow> parse B opt v
                | None \<Rightarrow> None)
           | _ \<Rightarrow> None)
      | _ \<Rightarrow> None)"
| "parse B (ZRefine s check) v =
     (case parse B s v of Some w \<Rightarrow> if check w then Some w else None | None \<Rightarrow> None)"
  by pat_completeness auto
termination
  apply (relation "measure (\<lambda>(B, s, v). size s)")
  apply (auto simp: shape_size less_Suc_eq_le size_list_estimation' dest!: set_zip_leftD find_size)
  done

section \<open>The schemas of the source\<close>

definition fieldFormatEnum :: schema where
  "fieldFormatEnum = ZEnum [''markdown'', ''html'']"

definition aiPromptFieldSchema :: schema where
  "aiPromptFieldSchema = ZObject Strict
     [(''id'', ZString []),
      (''type'', ZLiteral ''aiPrompt''),
      (''template'', ZString []),
      (''variables'', ZDefault (ZRecord (ZString [])) (JObj [])),
      (''constraints'', ZDefault (ZArray (ZString [])) (JArr [])),
      (''expectedFormat'', ZDefault (ZString []) (JStr ''markdown'')),
      (''fallbackStrategy'', ZDefault (ZString []) (JStr ''retry''))]"

definition fieldSchema :: schema where
  "fieldSchema = ZDiscriminatedUnion ''type''
     [ZObject Strict [(''id'', ZString []), (''type'', ZLiteral ''text''), (''value'', ZString [])],
      ZObject Strict [(''id'', ZString []), (''type'', ZLiteral ''richText''),
                      (''value'', ZString []), (''format'', fieldFormatEnum)],
      ZObject Strict
        [(''id'', ZString []), (''type'', ZLiteral ''image''),
         (''src'', ZString [Url]), (''alt'', ZString []),
         (''width'', ZOptional (ZNumber [])), (''height'', ZOptional (ZNumber [])),
         (''optimization'', ZOptional (ZObject Strict
            [(''quality'', ZOptional (ZNumber [])),
             (''format'', ZOptional (ZEnum [''webp'', ''avif'', ''jpeg''])),
             (''sizes'', ZOptional (ZArray (ZString []))),
             (''loading'', ZOptional (ZEnum [''eager'', ''lazy'']))]))],
      ZObject Strict
        [(''id'', ZString []), (''type'', ZLiteral ''cta''),
         (''text'', ZString []), (''href'', ZString [Url]),
         (''variant'', ZOptional (ZEnum [''primary'', ''secondary'', ''ghost''])),
         (''size'', ZOptional (ZEnum [''sm'', ''md'', ''lg'', ''icon''])),
         (''icon'', ZOptional (ZString [])),
         (''target'', ZOptional (ZEnum [''_blank'', ''_self'']))],
      ZObject Strict
        [(''id'', ZString []), (''type'', ZLiteral ''form''),
         (''fields'', ZArray (ZObject Strict
            [(''name'', ZString []), (''label'', ZString []),
             (''type'', ZEnum [''text'', ''email'', ''tel'', ''textarea'']),
             (''required'', ZBoolean),
             (''placeholder'', ZOptional (ZString []))]))],
      ZObject Strict
        [(''id'', ZString []), (''type'', ZLiteral ''service''),
         (''name'', ZString []), (''description'', ZString []),
         (''price'', ZNumber []), (''duration'', ZNumber []),
         (''image'', ZOptional (ZString [Url]))],
      aiPromptFieldSchema]"

definition sectionTypeEnum :: schema where
  "sectionTypeEnum = ZEnum
     [''hero'', ''text'', ''form'', ''gallery'', ''services'', ''aiGenerated'', ''clusteredContent'',
      ''reviewsMarquee'', ''howItWorks'', ''ourServices'', ''serviceLocations'',
      ''pricingComparison'', ''faq'', ''bestRatedCleaners'', ''leadCapture'']"

definition pageTypeEnum :: schema where
  "pageTypeEnum = ZEnum
     [''service'', ''home'', ''city'', ''about'', ''contact'', ''blog'', ''suburb'', ''cluster'',
      ''landing'']"

definition sectionIntentEnum :: schema where
  "sectionIntentEnum = ZEnum [''default'', ''primary'', ''secondary'', ''accent'']"

definition alignmentEnum :: schema where
  "alignmentEnum = ZEnum [''left'', ''center'', ''right'']"

definition componentSizeEnum :: schema where
  "componentSizeEnum = ZEnum [''xs'', ''sm'', ''md'', ''lg'', ''xl'', ''2xl'']"

definition containerSizeEnum :: schema where
  "containerSizeEnum = ZEnum [''sm'', ''md'', ''lg'', ''xl'', ''full'']"

text \<open>
  \<^verbatim>\<open>sectionSchema\<close> is declared before \<^verbatim>\<open>sharedSectionSchema\<close> and assigned here.
\<close>

definition sectionSchema :: schema where
  "sectionSchema = ZObject Strict
     [(''id'', ZString []),
      (''type'', sectionTypeEnum),
      (''fields'', ZRecord fieldSchema),
      (''style'', ZOptional (ZObject Strict
         [(''intent'', ZOptional sectionIntentEnum),
          (''align'', ZOptional alignmentEnum),
          (''padding'', ZOptional componentSizeEnum),
          (''container'', ZOptional containerSizeEnum)])),
      (''tracking'', ZOptional (ZObject Strict
         [(''id'', ZOptional (ZString [])),
          (''events'', ZOptional (ZArray (ZObject Strict
             [(''name'', ZString []), (''data'', ZOptional (ZRecord ZUnknown))])))])),
      (''seo'', ZOptional (ZObject Strict
         [(''title'', ZOptional (ZString [])),
          (''description'', ZOptional (ZString [])),
          (''schema'', ZOptional (ZObject Strict
             [(''type'', ZString []), (''data'', ZRecord ZUnknown)]))]))]"

definition localeSchema :: schema where
  "localeSchema = ZObject Strict
     [(''lang'', ZDefault (ZString []) (JStr ''en'')),
      (''region'', ZOptional (ZString [])),
      (''alternateLinks'', ZOptional (ZRecord (ZString [])))]"

definition pageStatusEnum :: schema where
  "pageStatusEnum = ZEnum [''draft'', ''published'', ''archived'']"

definition pagePriorityEnum :: schema where
  "pagePriorityEnum = ZEnum [''high'', ''medium'', ''low'']"

definition pageSchema :: schema where
  "pageSchema = ZObject Strict
     [(''id'', ZString []),
      (''type'', pageTypeEnum),
      (''slug'', ZString []),
      (''status'', ZOptional pageStatusEnum),
      (''priority'', ZOptional pagePriorityEnum),
      (''meta'', ZOptional (ZObject Strict
         [(''title'', ZOptional (ZString [])),
          (''description'', ZOptional (ZString [])),
          (''image'', ZOptional (ZString [Url])),
          (''schema'', ZOptional (ZObject Strict
             [(''type'', ZString []), (''data'', ZRecord ZUnknown)])),
          (''robots'', ZOptional (ZObject Strict
             [(''index'', ZOptional ZBoolean), (''follow'', ZOptional ZBoolean),
              (''imageIndex'', ZOptional ZBoolean)]))])),
      (''sections'', ZArray sectionSchema),
      (''navigation'', ZOptional ZUnknown),
      (''locale'', ZOptional localeSchema),
      (''clusterRefs'', ZDefault (ZArray (ZString [])) (JArr [])),
      (''sharedSectionRefs'', ZDefault (ZArray (ZString [])) (JArr [])),
      (''version'', ZDefault (ZNumber [IsInt, IsPositive]) (JNum (Finite 1))),
      (''lastModified'', ZString [Datetime]),
      (''lastModifiedBy'', ZString []),
      (''publishedAt'', ZOptional (ZString [Datetime])),
      (''publishedBy'', ZOptional (ZString []))]"

subsection \<open>Configuration schemas\<close>

definition featureFlagsSchema :: schema where
  "featureFlagsSchema = ZObject Strict
     [(''enablePersonalization'', ZDefault ZBoolean (JBool False)),
      (''enableABTesting'', ZDefault ZBoolean (JBool False)),
      (''enableVersioning'', ZDefault ZBoolean (JBool False)),
      (''enableDrafts'', ZDefault ZBoolean (JBool False)),
      (''enableTemplates'', ZDefault ZBoolean (JBool False)),
      (''enableAIContent'', ZDefault ZBoolean (JBool False)),
      (''enableMarketIntelligence'', ZDefault ZBoolean (JBool False)),
      (''enableAdvancedSEO'', ZDefault ZBoolean (JBool False)),
      (''enableCompetitorCrawling'', ZDefault ZBoolean (JBool False)),
      (''enableVectorSEO'', ZDefault ZBoolean (JBool False)),
      (''enableLeadFunnels'', ZDefault ZBoolean (JBool False)),
      (''enableMultiRegionDeploy'', ZDefault ZBoolean (JBool False)),
      (''enableMicrofrontends'', ZDefault ZBoolean (JBool False)),
      (''enableEmailAutomation'', ZDefault ZBoolean (JBool False)),
      (''enableN8nWorkflows'', ZDefault ZBoolean (JBool False)),
      (''enableProgrammaticSEO'', ZDefault ZBoolean (JBool False)),
      (''enableContentClustering'', ZDefault ZBoolean (JBool False)),
      (''enableSharedSections'', ZDefault ZBoolean (JBool False)),
      (''enableRoutePersonalization'', ZDefault ZBoolean (JBool False)),
      (''enableLocalizationSEO'', ZDefault ZBoolean (JBool False)),
      (''enableAdvancedCompetitorAnalysis'', ZDefault ZBoolean (JBool False)),
      (''enableRecentlyCleaned'', ZDefault ZBoolean (JBool False)),
      (''enableProviderFlow'', ZDefault ZBoolean (JBool False))]"

definition contentClusterSchema :: schema where
  "contentClusterSchema = ZObject Strict
     [(''clusterId'', ZString []),
      (''label'', ZString []),
      (''description'', ZOptional (ZString [])),
      (''sectionRefs'', ZDefault (ZArray (ZString [])) (JArr []))]"

text \<open>
  \<^verbatim>\<open>sharedSectionSchema\<close> is declared with \<^verbatim>\<open>section: z.any()\<close> and patched to
  \<^verbatim>\<open>sectionSchema\<close> before anything is parsed; this is the patched schema.
\<close>

definition sharedSectionSchema :: schema where
  "sharedSectionSchema = ZObject Strict
     [(''id'', ZString []),
      (''section'', sectionSchema)]"

definition routeRuleSchema :: schema where
  "routeRuleSchema = ZObject Strict
     [(''pattern'', ZString []),
      (''type'', ZEnum [''static'', ''dynamic'']),
      (''generateFrom'', ZOptional (ZEnum [''locations'', ''services'', ''clusters'', ''aiGenerated''])),
      (''aiInstructions'', ZOptional (ZString []))]"

definition vectorSEOSchema :: schema where
  "vectorSEOSchema = ZOptional (ZObject Strict
     [(''enabled'', ZBoolean),
      (''embeddingModel'', ZDefault (ZString []) (JStr ''text-embedding-model'')),
      (''vectorDB'', ZDefault (ZString []) (JStr ''pinecone'')),
      (''clusterStrategy'', ZDefault (ZEnum [''semantic'', ''keyword'', ''hybrid'']) (JStr ''semantic''))])"

definition aiCapabilitiesSchema :: schema where
  "aiCapabilitiesSchema = ZObject Strict
     [(''enabled'', ZBoolean),
      (''provider'', ZEnum [''openai'', ''custom'']),
      (''model'', ZDefault (ZString []) (JStr ''gpt-4'')),
      (''fallback'', ZDefault ZBoolean (JBool True)),
      (''promptTemplates'', ZOptional (ZRecord (ZString []))),
      (''contentPolicies'', ZDefault (ZArray (ZString [])) (JArr [])),
      (''competitorAwareContent'', ZDefault ZBoolean (JBool False)),
      (''localizationSupport'', ZDefault ZBoolean (JBool False))]"

definition competitorAnalysisSchema :: schema where
  "competitorAnalysisSchema = ZObject Strict
     [(''enabled'', ZDefault ZBoolean (JBool False)),
      (''sources'', ZDefault (ZArray (ZString [])) (JArr [])),
      (''frequency'', ZDefault (ZEnum [''daily'', ''weekly'', ''monthly'']) (JStr ''weekly'')),
      (''metrics'', ZObject Strict
         [(''trackSERP'', ZDefault ZBoolean (JBool True)),
          (''trackBacklinks'', ZDefault ZBoolean (JBool False)),
          (''trackLocalCompetitors'', ZDefault ZBoolean (JBool True))])]"

definition seoEnhancementsSchema :: schema where
  "seoEnhancementsSchema = ZObject Strict
     [(''internalLinking'', ZObject Strict
         [(''enabled'', ZBoolean),
          (''strategy'', ZEnum [''keyword-based'', ''cluster-based'', ''ai-suggested''])]),
      (''schemaEnhancements'', ZOptional (ZArray (ZString []))),
      (''vectorSEO'', vectorSEOSchema),
      (''programmaticSEO'', ZObject Strict
         [(''enabled'', ZDefault ZBoolean (JBool False)),
          (''routeRules'', ZDefault (ZArray routeRuleSchema) (JArr [])),
          (''localization'', ZDefault ZBoolean (JBool False)),
          (''contentClusters'', ZDefault (ZArray contentClusterSchema) (JArr [])),
          (''sharedSections'', ZDefault (ZArray sharedSectionSchema) (JArr [])),
          (''multilingualSupport'', ZDefault (ZArray localeSchema) (JArr []))])]"

definition advancedConfigSchema :: schema where
  "advancedConfigSchema = ZObject Strict
     [(''seo'', ZOptional seoEnhancementsSchema),
      (''aiContent'', ZOptional aiCapabilitiesSchema),
      (''competitorAnalysis'', ZOptional competitorAnalysisSchema)]"

text \<open>The theme schema of \<^verbatim>\<open>src/core/origintheme.ts\<close>.\<close>

definition hueSchema :: schema where
  "hueSchema = ZDefault (ZNumber [AtLeast 0, AtMost 360]) (JNum (Finite 273))"

definition saturationSchema :: schema where
  "saturationSchema = ZDefault (ZNumber [AtLeast 0, AtMost 100]) (JNum (Finite 83))"

definition lightnessSchema :: schema where
  "lightnessSchema = ZDefault (ZNumber [AtLeast 0, AtMost 100]) (JNum (Finite 60))"

definition colorGroupSchema :: schema where
  "colorGroupSchema = ZObject Strict
     [(''hue'', hueSchema), (''saturation'', saturationSchema), (''lightness'', lightnessSchema)]"

definition semanticColorTuple :: schema where
  "semanticColorTuple = ZTuple [ZNumber [], ZNumber [], ZNumber []]"

text \<open>\<^verbatim>\<open>z.number().default(d)\<close>\<close>

definition numberDefault :: "rat \<Rightarrow> schema" where
  "numberDefault d = ZDefault (ZNumber []) (JNum (Finite d))"

definition spacingSchema :: schema where
  "spacingSchema = ZObject Strict
     [(''base'', numberDefault 16),
      (''scale'', numberDefault (3 / 2)),
      (''fluid'', ZObject Strict [(''min'', numberDefault (1 / 2)), (''max'', numberDefault (3 / 2))])]"

definition typographySchema :: schema where
  "typographySchema = ZObject Strict
     [(''baseSize'', numberDefault 16),
      (''scaleRatio'', numberDefault (5 / 4)),
      (''fluid'', ZObject Strict [(''minVw'', numberDefault 320), (''maxVw'', numberDefault 1280)])]"

definition containersSchema :: schema where
  "containersSchema = ZObject Strict
     [(''maxWidth'', ZObject Strict
         [(''sm'', numberDefault 640), (''md'', numberDefault 768),
          (''lg'', numberDefault 1024), (''xl'', numberDefault 1280)]),
      (''padding'', ZObject Strict
         [(''sm'', numberDefault 16), (''md'', numberDefault 24), (''lg'', numberDefault 32)])]"

definition motionTokensSchema :: schema where
  "motionTokensSchema = ZObject Strict
     [(''duration'', ZObject Strict
         [(''instant'', numberDefault 50), (''fast'', numberDefault 100),
          (''normal'', numberDefault 200), (''slow'', numberDefault 300)]),
      (''easing'', ZObject Strict
         [(''default'', ZDefault (ZString []) (JStr ''cubic-bezier(0.4,0,0.2,1)'')),
          (''in'', ZDefault (ZString []) (JStr ''cubic-bezier(0.4,0,1,1)'')),
          (''out'', ZDefault (ZString []) (JStr ''cubic-bezier(0,0,0.2,1)''))])]"

definition themeSchema :: schema where
  "themeSchema = ZObject Strict
     [(''colors'', ZObject Strict
         [(''primary'', colorGroupSchema),
          (''secondary'', colorGroupSchema),
          (''neutral'', colorGroupSchema),
          (''semantic'', ZObject Strict
             [(''background'', semanticColorTuple), (''foreground'', semanticColorTuple),
              (''accent'', semanticColorTuple), (''muted'', semanticColorTuple),
              (''destructive'', semanticColorTuple), (''border'', semanticColorTuple),
              (''input'', semanticColorTuple), (''ring'', semanticColorTuple),
              (''card'', semanticColorTuple), (''popover'', semanticColorTuple),
              (''cardForeground'', semanticColorTuple),
              (''popoverForeground'', semanticColorTuple),
              (''primaryForeground'', semanticColorTuple),
              (''secondaryForeground'', semanticColorTuple),
              (''mutedForeground'', semanticColorTuple),
              (''accentForeground'', semanticColorTuple),
              (''destructiveForeground'', semanticColorTuple)]),
          (''sidebar'', ZObject Strict
             [(''background'', semanticColorTuple), (''foreground'', semanticColorTuple),
              (''primary'', semanticColorTuple), (''primaryForeground'', semanticColorTuple),
              (''accent'', semanticColorTuple), (''accentForeground'', semanticColorTuple),
              (''border'', semanticColorTuple), (''ring'', semanticColorTuple)]),
          (''chart'', ZObject Strict
             [(''1'', semanticColorTuple), (''2'', semanticColorTuple),
              (''3'', semanticColorTuple), (''4'', semanticColorTuple),
              (''5'', semanticColorTuple)])]),
      (''spacing'', spacingSchema),
      (''typography'', typographySchema),
      (''containers'', containersSchema),
      (''motion'', motionTokensSchema),
      (''darkMode'', ZDefault ZBoolean (JBool False)),
      (''prefersReducedMotion'', ZDefault ZBoolean (JBool False))]"

text \<open>
  \<^verbatim>\<open>appConfigSchema\<close>: an object schema that is not strict, refined by the function
  that returns false when \<^verbatim>\<open>advancedConfig\<close> is truthy and neither
  \<^verbatim>\<open>enableAdvancedSEO\<close> nor \<^verbatim>\<open>enableAIContent\<close> is.
\<close>

definition appConfigRefinement :: "json \<Rightarrow> bool" where
  "appConfigRefinement data =
     (if truthy (getProp data ''advancedConfig'')
         \<and> \<not> truthy (getProp (getProp data ''featureFlags'') ''enableAdvancedSEO'')
         \<and> \<not> truthy (getProp (getProp data ''featureFlags'') ''enableAIContent'')
      then False else True)"

definition appConfigObject :: schema where
  "appConfigObject = ZObject Strip
     [(''featureFlags'', featureFlagsSchema),
      (''theme'', ZOptional themeSchema),
      (''advancedConfig'', ZOptional advancedConfigSchema)]"

definition appConfigSchema :: schema where
  "appConfigSchema = ZRefine appConfigObject appConfigRefinement"

section \<open>Registries\<close>

text \<open>
  Each registry is a plain object used as a dictionary (\<^verbatim>\<open>const _r: Record<string, T> = {}\<close>).
  Reading \<^verbatim>\<open>_r[key]\<close> also finds the properties every object inherits from
  \<^verbatim>\<open>Object.prototype\<close>, which are truthy; the values stored are objects, truthy as well.
\<close>

definition objectPrototypeKeys :: "string list" where
  "objectPrototypeKeys =
     [''constructor'', ''__defineGetter__'', ''__defineSetter__'', ''hasOwnProperty'',
      ''__lookupGetter__'', ''__lookupSetter__'', ''isPrototypeOf'', ''propertyIsEnumerable'',
      ''toString'', ''valueOf'', ''__proto__'', ''toLocaleString'']"

datatype 'v lookup = Own 'v | Inherited | Absent

definition registryGet :: "(string \<rightharpoonup> 'v) \<Rightarrow> string \<Rightarrow> 'v lookup" where
  "registryGet r k =
     (case r k of Some v \<Rightarrow> Own v
      | None \<Rightarrow> if k \<in> set objectPrototypeKeys then Inherited else Absent)"

text \<open>
  A registry item names its React component; the optional \<^verbatim>\<open>generateContent\<close> is a
  function from variables to the text it resolves to.
\<close>

record sectionRegistryItem =
  component :: string
  label :: string
  icon :: string
  description :: string
  generateContent :: "((string \<times> string) list \<Rightarrow> string) option"

text \<open>
  The \<^verbatim>\<open>Page\<close> type inferred from \<^verbatim>\<open>pageSchema\<close>, for the functions that receive or
  build a typed page.  Sections stay trees: they are what \<^verbatim>\<open>sectionSchema\<close> validates
  at run time.  An optional property is \<open>None\<close> when it is \<^verbatim>\<open>undefined\<close>.
\<close>

record pageMeta =
  title :: "string option"
  metaDescription :: "string option"
  image :: "string option"
  metaSchema :: "json option"
  robots :: "json option"

record page =
  pageId :: string
  pageType :: string
  slug :: string
  status :: "string option"
  priority :: "string option"
  meta :: "pageMeta option"
  sections :: "json list"
  navigation :: json
  pageLocale :: "json option"
  clusterRefs :: "string list"
  sharedSectionRefs :: "string list"
  version :: int
  lastModified :: string
  lastModifiedBy :: string
  publishedAt :: "string option"
  publishedBy :: "string option"

text \<open>
  A template as \<^verbatim>\<open>templateSchema\<close> types it.  The skeleton section is a parameter of
  the type: a tree where only values matter, a reference where identity does.
\<close>

record 's template =
  template_id :: string
  template_name :: string
  template_description :: "string option"
  template_section :: 's
  template_variables :: "json list"
  aiPrompt :: "string option"
  category :: "string option"
  tags :: "string list"

text \<open>
  The module state: the section-type registry and the page registry, the number of
  draws made from \<^verbatim>\<open>randomUUID\<close> and the clock, and a trace of the calls made to
  \<^verbatim>\<open>generateAIContentSections\<close> (instructions and variables of each call, latest
  last).  The trace is not a variable of the source: it records with which arguments the
  generator was called.
\<close>

record state =
  sectionRegistry :: "string \<rightharpoonup> sectionRegistryItem"
  pageRegistry :: "string \<rightharpoonup> page"
  draws :: nat
  aiCalls :: "(string option \<times> (string \<times> json) list) list"

type_synonym 's templateRegistry = "string \<rightharpoonup> 's template"

text \<open>
  \<^verbatim>\<open>sectionRegistryUtils.register\<close>:
  \<^verbatim>\<open>if (_sectionRegistry[type]) throw new Error(`Section type ${type} already registered`)\<close>,
  then the store.
\<close>

definition sectionRegistryUtils_register ::
  "string \<Rightarrow> sectionRegistryItem \<Rightarrow> state \<Rightarrow> (error \<times> state) + state" where
  "sectionRegistryUtils_register type item st =
     (if registryGet (sectionRegistry st) type \<noteq> Absent
      then Inl (Error (''Section type '' @ type @ '' already registered''), st)
      else Inr (st\<lparr>sectionRegistry := (sectionRegistry st)(type \<mapsto> item)\<rparr>))"

definition sectionRegistryUtils_has :: "state \<Rightarrow> string \<Rightarrow> bool" where
  "sectionRegistryUtils_has st type \<longleftrightarrow> registryGet (sectionRegistry st) type \<noteq> Absent"

text \<open>
  \<^verbatim>\<open>registerPage\<close>:
  \<^verbatim>\<open>if (_pageRegistry[page.slug]) throw new Error(`Page slug ${page.slug} already registered`)\<close>.
\<close>

definition registerPage :: "page \<Rightarrow> state \<Rightarrow> (error \<times> state) + state" where
  "registerPage p st =
     (if registryGet (pageRegistry st) (slug p) \<noteq> Absent
      then Inl (Error (''Page slug '' @ slug p @ '' already registered''), st)
      else Inr (st\<lparr>pageRegistry := (pageRegistry st)(slug p \<mapsto> p)\<rparr>))"

definition getPageBySlug :: "state \<Rightarrow> string \<Rightarrow> page lookup" where
  "getPageBySlug st s = registryGet (pageRegistry st) s"

text \<open>
  \<^verbatim>\<open>templateUtils.register\<close>:
  \<^verbatim>\<open>if (_templateRegistry[template.id]) throw new ValidationError('Template already exists', 'TEMPLATE_EXISTS')\<close>.
\<close>

definition templateUtils_register ::
  "'s template \<Rightarrow> 's templateRegistry \<Rightarrow> (error \<times> 's templateRegistry) + 's templateRegistry" where
  "templateUtils_register t r =
     (if registryGet r (template_id t) \<noteq> Absent
      then Inl (ValidationError ''Template already exists'' ''TEMPLATE_EXISTS'', r)
      else Inr (r(template_id t \<mapsto> t)))"

section \<open>The validated configuration\<close>

text \<open>
  \<^verbatim>\<open>globalAppConfig\<close> is the frozen result of validating a literal against
  \<^verbatim>\<open>appConfigSchema\<close>, so the functions below read a typed value.  The records keep the
  properties those functions read; the payload of a shared section is a parameter of the
  type, like the skeleton of a template.
\<close>

datatype routeType = Static | Dynamic

datatype generateSource = Locations | Services | Clusters | AiGenerated

record routeRule =
  pattern :: string
  ruleType :: routeType
  generateFrom :: "generateSource option"
  aiInstructions :: "string option"

record 's sharedSection =
  sharedId :: string
  sharedPayload :: 's

record 's programmaticSEO =
  seoEnabled :: bool
  routeRules :: "routeRule list"
  localization :: bool
  sharedSections :: "'s sharedSection list"

record 's seoEnhancements =
  programmaticSEO :: "'s programmaticSEO"

record aiCapabilities =
  aiEnabled :: bool

record 's advancedConfig =
  seo :: "'s seoEnhancements option"
  aiContent :: "aiCapabilities option"

record featureFlags =
  enableAIContent :: bool
  enableAdvancedSEO :: bool
  enableProgrammaticSEO :: bool
  enableSharedSections :: bool

record 's appConfig =
  featureFlags :: featureFlags
  advancedConfig :: "'s advancedConfig option"

text \<open>\<^verbatim>\<open>globalAppConfig.advancedConfig?.seo?.programmaticSEO\<close>\<close>

definition seoConfigOf :: "'s appConfig \<Rightarrow> 's programmaticSEO option" where
  "seoConfigOf cfg =
     (case advancedConfig cfg of None \<Rightarrow> None
      | Some a \<Rightarrow> (case seo a of None \<Rightarrow> None | Some e \<Rightarrow> Some (programmaticSEO e)))"

text \<open>
  \<^verbatim>\<open>globalAppConfig.advancedConfig?.seo?.programmaticSEO?.sharedSections ?? []\<close>
\<close>

definition sharedPool :: "'s appConfig \<Rightarrow> 's sharedSection list" where
  "sharedPool cfg = (case seoConfigOf cfg of None \<Rightarrow> [] | Some c \<Rightarrow> sharedSections c)"

text \<open>\<^verbatim>\<open>globalAppConfig.advancedConfig?.aiContent?.enabled\<close>, as a condition\<close>

definition aiContentEnabled :: "'s appConfig \<Rightarrow> bool" where
  "aiContentEnabled cfg =
     (case advancedConfig cfg of None \<Rightarrow> False
      | Some a \<Rightarrow> (case aiContent a of None \<Rightarrow> False | Some c \<Rightarrow> aiEnabled c))"

text \<open>An optional string as a condition: \<^verbatim>\<open>undefined\<close> and the empty string are falsy.\<close>

fun truthyStr :: "string option \<Rightarrow> bool" where
  "truthyStr None = False"
| "truthyStr (Some s) = (s \<noteq> [])"

section \<open>Page builder\<close>

text \<open>
  \<^verbatim>\<open>String.prototype.trim\<close> strips white space and line terminators from both ends.
  A character of a string here is a code unit below 256; of these the engine strips
  tab, line feed, vertical tab, form feed, carriage return, space and no-break space
  (U+00A0).  The white space above that range (U+1680, U+2000 to U+200A, U+2028, U+2029,
  U+202F, U+205F, U+3000, U+FEFF) has no character in these strings.
\<close>

definition isWhiteSpace :: "char \<Rightarrow> bool" where
  "isWhiteSpace c \<longleftrightarrow>
     c \<in> set [CHR 0x09, CHR 0x0A, CHR 0x0B, CHR 0x0C, CHR 0x0D, CHR 0x20, CHR 0xA0]"

definition trim :: "string \<Rightarrow> string" where
  "trim s = rev (dropWhile isWhiteSpace (rev (dropWhile isWhiteSpace s)))"

text \<open>
  \<^verbatim>\<open>pageBuilderUtils.createSection\<close>: refuses a type the section registry does not
  have, else returns the object literal with a fresh id and empty style, tracking and seo.
\<close>

definition createSection ::
  "builtins \<Rightarrow> string \<Rightarrow> (string \<times> json) list \<Rightarrow> state \<Rightarrow> (error \<times> state) + (json \<times> state)" where
  "createSection B type fieldsArg st =
     (if \<not> sectionRegistryUtils_has st type
      then Inl (Error (''Cannot create section: type '' @ type @ '' not found in registry''), st)
      else Inr (JObj [(''id'', JStr (randomUUID B (draws st))),
                      (''type'', JStr type),
                      (''fields'', JObj fieldsArg),
                      (''style'', JObj []),
                      (''tracking'', JObj []),
                      (''seo'', JObj [])],
                st\<lparr>draws := Suc (draws st)\<rparr>))"

text \<open>
  \<^verbatim>\<open>pageBuilderUtils.createPage\<close>: \<^verbatim>\<open>INVALID_PAGE_TYPE\<close> for a type outside the
  enumeration, \<^verbatim>\<open>INVALID_PAGE_SLUG\<close> for an empty or blank slug, else the object literal
  (one draw for the id, one for the time stamp).
\<close>

definition createPage ::
  "builtins \<Rightarrow> string \<Rightarrow> string \<Rightarrow> state \<Rightarrow> (error \<times> state) + (page \<times> state)" where
  "createPage B type s st =
     (if parse B pageTypeEnum (JStr type) = None
      then Inl (ValidationError (''Invalid page type: '' @ type) ''INVALID_PAGE_TYPE'', st)
      else if s = [] \<or> trim s = []
      then Inl (ValidationError ''Invalid slug: must be non-empty string'' ''INVALID_PAGE_SLUG'', st)
      else Inr (\<lparr>pageId = randomUUID B (draws st),
                 pageType = type,
                 slug = s,
                 status = None,
                 priority = None,
                 meta = Some \<lparr>title = None, metaDescription = None, image = None,
                              metaSchema = None, robots = None\<rparr>,
                 sections = [],
                 navigation = JUndefined,
                 pageLocale = None,
                 clusterRefs = [],
                 sharedSectionRefs = [],
                 version = 1,
                 lastModified = toISOString B (Suc (draws st)),
                 lastModifiedBy = ''system'',
                 publishedAt = None,
                 publishedBy = None\<rparr>,
                st\<lparr>draws := Suc (Suc (draws st))\<rparr>))"

section \<open>Programmatic SEO generator\<close>

text \<open>
  \<^verbatim>\<open>extractProgrammaticSEODetails\<close>: the route rules, the localization flag, and the
  instructions of the first rule whose \<^verbatim>\<open>aiInstructions\<close> is truthy
  (\<^verbatim>\<open>routeRules.find(r => r.aiInstructions)?.aiInstructions\<close>).
\<close>

record seoDetails =
  detailRules :: "routeRule list"
  detailLocalization :: bool
  detailInstructions :: "string option"

definition extractProgrammaticSEODetails :: "'s appConfig \<Rightarrow> seoDetails" where
  "extractProgrammaticSEODetails cfg =
     (let rules = (case seoConfigOf cfg of None \<Rightarrow> [] | Some c \<Rightarrow> routeRules c)
      in \<lparr>detailRules = rules,
          detailLocalization = (case seoConfigOf cfg of None \<Rightarrow> False | Some c \<Rightarrow> localization c),
          detailInstructions =
            (case find (\<lambda>r. truthyStr (aiInstructions r)) rules of
               None \<Rightarrow> None | Some r \<Rightarrow> aiInstructions r)\<rparr>)"

text \<open>
  The variables are an object of strings by their declared type; \<^verbatim>\<open>instantiate\<close>
  passes what it was given under a cast, so a value is any primitive.
  \<^verbatim>\<open>variables.city\<close> inside a template literal: a missing key prints as \<^verbatim>\<open>undefined\<close>,
  a value that cannot be converted throws.
\<close>

definition variableText :: "builtins \<Rightarrow> (string \<times> json) list \<Rightarrow> string \<Rightarrow> string option" where
  "variableText B vars k = toString B (getProp (JObj vars) k)"

text \<open>
  \<^verbatim>\<open>generateAIContentSections\<close>: nothing without instructions or with AI content
  disabled, else one section of type \<^verbatim>\<open>text\<close> built by \<^verbatim>\<open>createSection\<close> around one
  text field, whose text takes the city and then the service.  The call is recorded in
  the trace on entry.
\<close>

definition generateAIContentSections ::
  "builtins \<Rightarrow> 's appConfig \<Rightarrow> string option \<Rightarrow> (string \<times> json) list \<Rightarrow> state \<Rightarrow>
     (error \<times> state) + (json list \<times> state)" where
  "generateAIContentSections B cfg instructions variables st0 =
     (let st = st0\<lparr>aiCalls := aiCalls st0 @ [(instructions, variables)]\<rparr> in
      if \<not> truthyStr instructions \<or> \<not> aiContentEnabled cfg then Inr ([], st)
      else
        (case variableText B variables ''city'' of
           None \<Rightarrow> Inl (TypeError notPrimitive, st)
         | Some city \<Rightarrow>
             (case variableText B variables ''service'' of
                None \<Rightarrow> Inl (TypeError notPrimitive, st)
              | Some service \<Rightarrow>
                  let generatedText = ''AI generated content for '' @ city @ '' '' @ service;
                      textField = JObj [(''id'', JStr ''intro''), (''type'', JStr ''text''),
                                        (''value'', JStr generatedText)]
                  in (case createSection B ''text'' [(''intro'', textField)] st of
                        Inl e \<Rightarrow> Inl e
                      | Inr (section, st') \<Rightarrow> Inr ([section], st')))))"

definition slugOf :: "string \<Rightarrow> string \<Rightarrow> string" where
  "slugOf city service = ''/'' @ city @ ''/'' @ service"

definition cities :: "string list" where
  "cities = [''sydney'', ''melbourne'', ''brisbane'']"

definition services :: "string list" where
  "services = [''house-cleaning'', ''end-of-lease'']"

text \<open>
  The body of the innermost loop of \<^verbatim>\<open>applyProgrammaticSEO\<close>, for one rule, city and
  service: nothing when \<^verbatim>\<open>getPageBySlug(slug)\<close> is truthy; else the AI sections (from
  \<^verbatim>\<open>rule.aiInstructions\<close>, when the AI flag, the AI configuration and the rule's
  instructions are all truthy), a new page of type \<^verbatim>\<open>city\<close>, the sections pushed, the
  page registered.
\<close>

definition generatePage ::
  "builtins \<Rightarrow> 's appConfig \<Rightarrow> routeRule \<Rightarrow> string \<Rightarrow> string \<Rightarrow> state \<Rightarrow> (error \<times> state) + state" where
  "generatePage B cfg rule city service st =
     (let s = slugOf city service in
      if getPageBySlug st s \<noteq> Absent then Inr st
      else
        (case (if enableAIContent (featureFlags cfg) \<and> aiContentEnabled cfg
                  \<and> truthyStr (aiInstructions rule)
               then generateAIContentSections B cfg (aiInstructions rule)
                      [(''city'', JStr city), (''service'', JStr service)] st
               else Inr ([], st)) of
           Inl e \<Rightarrow> Inl e
         | Inr (generatedSections, st1) \<Rightarrow>
             (case createPage B ''city'' s st1 of
                Inl e \<Rightarrow> Inl e
              | Inr (newPage, st2) \<Rightarrow>
                  registerPage (newPage\<lparr>sections := sections newPage @ generatedSections\<rparr>) st2)))"

fun forServices ::
  "builtins \<Rightarrow> 's appConfig \<Rightarrow> routeRule \<Rightarrow> string \<Rightarrow> string list \<Rightarrow> state \<Rightarrow> (error \<times> state) + state" where
  "forServices B cfg rule city [] st = Inr st"
| "forServices B cfg rule city (service # rest) st =
     (case generatePage B cfg rule city service st of
        Inl e \<Rightarrow> Inl e
      | Inr st' \<Rightarrow> forServices B cfg rule city rest st')"

fun forCities ::
  "builtins \<Rightarrow> 's appConfig \<Rightarrow> routeRule \<Rightarrow> string list \<Rightarrow> state \<Rightarrow> (error \<times> state) + state" where
  "forCities B cfg rule [] st = Inr st"
| "forCities B cfg rule (city # rest) st =
     (case forServices B cfg rule city services st of
        Inl e \<Rightarrow> Inl e
      | Inr st' \<Rightarrow> forCities B cfg rule rest st')"

fun forRules ::
  "builtins \<Rightarrow> 's appConfig \<Rightarrow> routeRule list \<Rightarrow> state \<Rightarrow> (error \<times> state) + state" where
  "forRules B cfg [] st = Inr st"
| "forRules B cfg (rule # rest) st =
     (if ruleType rule = Dynamic \<and> generateFrom rule = Some Locations
      then (case forCities B cfg rule cities st of
              Inl e \<Rightarrow> Inl e
            | Inr st' \<Rightarrow> forRules B cfg rest st')
      else forRules B cfg rest st)"

text \<open>
  \<^verbatim>\<open>applyProgrammaticSEO\<close>: returns at once unless the feature flag and the
  programmatic-SEO \<^verbatim>\<open>enabled\<close> flag are both true; the \<^verbatim>\<open>aiInstructions\<close> it takes from
  \<^verbatim>\<open>extractProgrammaticSEODetails\<close> is not used after the destructuring.
\<close>

definition applyProgrammaticSEO ::
  "builtins \<Rightarrow> 's appConfig \<Rightarrow> state \<Rightarrow> (error \<times> state) + state" where
  "applyProgrammaticSEO B cfg st =
     (if \<not> enableProgrammaticSEO (featureFlags cfg)
         \<or> \<not> (case seoConfigOf cfg of None \<Rightarrow> False | Some c \<Rightarrow> seoEnabled c)
      then Inr st
      else
        let details = extractProgrammaticSEODetails cfg
        in forRules B cfg (detailRules details) st)"

text \<open>The state a call leaves behind, whether it returned or threw.\<close>

fun stateAfter :: "(error \<times> state) + state \<Rightarrow> state" where
  "stateAfter (Inl (e, st)) = st"
| "stateAfter (Inr st) = st"

section \<open>Validation and shared-section resolution\<close>

text \<open>
  \<^verbatim>\<open>validationUtils.validateSafely\<close>: the parsed data, or a \<^verbatim>\<open>ValidationError\<close> with
  the message \<^verbatim>\<open>Validation failed\<close> and the caller's code.
\<close>

definition validateSafely :: "builtins \<Rightarrow> schema \<Rightarrow> json \<Rightarrow> string \<Rightarrow> error + json" where
  "validateSafely B schema data errorCode =
     (case parse B schema data of
        None \<Rightarrow> Inl (ValidationError ''Validation failed'' errorCode)
      | Some d \<Rightarrow> Inr d)"

text \<open>\<^verbatim>\<open>typeGuards.isSection\<close>\<close>

definition isSection :: "builtins \<Rightarrow> json \<Rightarrow> bool" where
  "isSection B data \<longleftrightarrow> parse B sectionSchema data \<noteq> None"

text \<open>
  The loop of \<^verbatim>\<open>resolveSharedSections\<close> over \<^verbatim>\<open>page.sharedSectionRefs\<close>, with the
  array \<^verbatim>\<open>updatedSections\<close> and the set \<^verbatim>\<open>resolvedRefs\<close> it updates.  A reference that
  is not a string throws, the \<^verbatim>\<open>ValidationError\<close> when the message can be built from
  it and the conversion's \<^verbatim>\<open>TypeError\<close> when not; one that finds no shared section, finds a payload that is not
  a section, or was resolved before is skipped; otherwise the payload is pushed.  The
  payload type is a parameter: the loop pushes what the pool holds.
\<close>

fun resolveRefs ::
  "builtins \<Rightarrow> ('s \<Rightarrow> bool) \<Rightarrow> 's sharedSection list \<Rightarrow> json list \<Rightarrow> 's list \<Rightarrow> string set \<Rightarrow>
     error + 's list" where
  "resolveRefs B valid pool [] updatedSections resolvedRefs = Inr updatedSections"
| "resolveRefs B valid pool (refId # rest) updatedSections resolvedRefs =
     (case refId of
        JStr r \<Rightarrow>
          (case find (\<lambda>s. sharedId s = r) pool of
             None \<Rightarrow> resolveRefs B valid pool rest updatedSections resolvedRefs
           | Some sharedSec \<Rightarrow>
               if \<not> valid (sharedPayload sharedSec)
               then resolveRefs B valid pool rest updatedSections resolvedRefs
               else if r \<in> resolvedRefs
               then resolveRefs B valid pool rest updatedSections resolvedRefs
               else resolveRefs B valid pool rest (updatedSections @ [sharedPayload sharedSec])
                      (insert r resolvedRefs))
      | _ \<Rightarrow>
          (case toString B refId of
             None \<Rightarrow> Inl (TypeError notPrimitive)
           | Some text \<Rightarrow>
               Inl (ValidationError ''INVALID_REF_ID''
                      (''Invalid shared section reference: '' @ text))))"

text \<open>
  The elements a spread \<^verbatim>\<open>[...x]\<close> takes from \<open>x\<close>: those of an array, the characters
  of a string; \<open>None\<close> where the engine throws a \<^verbatim>\<open>TypeError\<close>.
\<close>

fun iterate :: "json \<Rightarrow> json list option" where
  "iterate (JArr xs) = Some xs"
| "iterate (JStr s) = Some (map (\<lambda>c. JStr [c]) s)"
| "iterate _ = None"

text \<open>
  The properties an object spread \<^verbatim>\<open>{...x}\<close> copies, and \<^verbatim>\<open>{...x, k: v}\<close> setting one:
  in place when \<open>x\<close> has the key, last otherwise.
\<close>

fun ownProperties :: "json \<Rightarrow> (string \<times> json) list" where
  "ownProperties (JObj kvs) = kvs"
| "ownProperties (JArr xs) = map (\<lambda>i. (digits i, xs ! i)) [0..<length xs]"
| "ownProperties (JStr s) = map (\<lambda>i. (digits i, JStr [s ! i])) [0..<length s]"
| "ownProperties _ = []"

fun setProperty :: "(string \<times> 'v) list \<Rightarrow> string \<Rightarrow> 'v \<Rightarrow> (string \<times> 'v) list" where
  "setProperty [] k v = [(k, v)]"
| "setProperty ((k', v') # kvs) k v =
     (if k' = k then (k, v) # kvs else (k', v') # setProperty kvs k v)"

text \<open>\<^verbatim>\<open>page.sections ?? []\<close>\<close>

definition sectionsOrEmpty :: "json \<Rightarrow> json" where
  "sectionsOrEmpty page =
     (case getProp page ''sections'' of JUndefined \<Rightarrow> JArr [] | JNull \<Rightarrow> JArr [] | s \<Rightarrow> s)"

text \<open>
  \<^verbatim>\<open>resolveSharedSections\<close> on the value it is given.  The two arguments of each
  \<^verbatim>\<open>ValidationError\<close> stand as the source passes them: the constructor takes the message
  first and the code second.
\<close>

definition resolveSharedSections :: "builtins \<Rightarrow> json appConfig \<Rightarrow> json \<Rightarrow> error + json" where
  "resolveSharedSections B cfg page =
     (if \<not> truthy page
      then Inl (ValidationError ''PAGE_REQUIRED'' ''Page is required for resolving shared sections'')
      else
        let pool = sharedPool cfg in
        if \<not> enableSharedSections (featureFlags cfg) \<or> pool = [] then Inr page
        else
          (case getProp page ''sharedSectionRefs'' of
             JArr refs \<Rightarrow>
               (case iterate (sectionsOrEmpty page) of
                  None \<Rightarrow> Inl (TypeError ''page.sections is not iterable'')
                | Some existing \<Rightarrow>
                    (case resolveRefs B (isSection B) pool refs existing {} of
                       Inl e \<Rightarrow> Inl e
                     | Inr updatedSections \<Rightarrow>
                         Inr (JObj (setProperty (ownProperties page) ''sections''
                                      (JArr updatedSections)))))
           | _ \<Rightarrow> Inl (ValidationError ''INVALID_SHARED_REFS''
                       ''sharedSectionRefs must be an array'')))"

text \<open>
  Step 2 of \<^verbatim>\<open>validatePage\<close>: the callback of \<^verbatim>\<open>validatedPage.sections.forEach\<close>
  on each section with its index.
\<close>

fun validateSections :: "builtins \<Rightarrow> json list \<Rightarrow> nat \<Rightarrow> error + unit" where
  "validateSections B [] index = Inr ()"
| "validateSections B (section # rest) index =
     (case validateSafely B sectionSchema section (''INVALID_SECTION_'' @ digits index) of
        Inl e \<Rightarrow> Inl e
      | Inr _ \<Rightarrow> validateSections B rest (Suc index))"

text \<open>
  \<^verbatim>\<open>pageValidationMiddleware.validatePage\<close>, with \<^verbatim>\<open>options.resolveShared\<close> as a
  boolean (absent is false).
\<close>

definition validatePage :: "builtins \<Rightarrow> json appConfig \<Rightarrow> json \<Rightarrow> bool \<Rightarrow> error + json" where
  "validatePage B cfg page resolveShared =
     (case validateSafely B pageSchema page ''INVALID_PAGE_STRUCTURE'' of
        Inl e \<Rightarrow> Inl e
      | Inr validatedPage \<Rightarrow>
          (case getProp validatedPage ''sections'' of
             JArr secs \<Rightarrow>
               (case validateSections B secs 0 of
                  Inl e \<Rightarrow> Inl e
                | Inr _ \<Rightarrow>
                    if resolveShared then resolveSharedSections B cfg validatedPage
                    else Inr validatedPage)
           | _ \<Rightarrow> Inl (TypeError ''validatedPage.sections.forEach is not a function'')))"

section \<open>Object identity\<close>

text \<open>
  Where a claim is about which object a value is, values are references into a store.  An
  address is an index into the list of the objects allocated so far; a value is a
  primitive or a reference; an object is a record of properties or an array.  An
  allocation appends, so the address it returns was not in use.
\<close>

type_synonym addr = nat

datatype hval = HUndefined | HNull | HBool bool | HNum jsnum | HStr string | HRef addr

datatype hobj = HObject "(string \<times> hval) list" | HArray "hval list"

type_synonym heap = "hobj list"

definition alloc :: "hobj \<Rightarrow> heap \<Rightarrow> hval \<times> heap" where
  "alloc obj h = (HRef (length h), h @ [obj])"

text \<open>
  Allocating a tree: every object and array of it becomes a new object of the store.
  This is what an object literal, \<^verbatim>\<open>JSON.parse\<close> and a function that builds its result
  from literals do.
\<close>

fun allocJson :: "json \<Rightarrow> heap \<Rightarrow> hval \<times> heap"
  and allocList :: "json list \<Rightarrow> heap \<Rightarrow> hval list \<times> heap"
  and allocProps :: "(string \<times> json) list \<Rightarrow> heap \<Rightarrow> (string \<times> hval) list \<times> heap" where
  "allocJson JUndefined h = (HUndefined, h)"
| "allocJson JNull h = (HNull, h)"
| "allocJson (JBool b) h = (HBool b, h)"
| "allocJson (JNum n) h = (HNum n, h)"
| "allocJson (JStr s) h = (HStr s, h)"
| "allocJson (JArr xs) h = (case allocList xs h of (vs, h1) \<Rightarrow> alloc (HArray vs) h1)"
| "allocJson (JObj kvs) h = (case allocProps kvs h of (ps, h1) \<Rightarrow> alloc (HObject ps) h1)"
| "allocList [] h = ([], h)"
| "allocList (x # xs) h =
     (case allocJson x h of (v, h1) \<Rightarrow>
        (case allocList xs h1 of (vs, h2) \<Rightarrow> (v # vs, h2)))"
| "allocProps [] h = ([], h)"
| "allocProps ((k, x) # kvs) h =
     (case allocJson x h of (v, h1) \<Rightarrow>
        (case allocProps kvs h1 of (ps, h2) \<Rightarrow> ((k, v) # ps, h2)))"

text \<open>
  Reading the tree below a value, as \<^verbatim>\<open>JSON.stringify\<close> and a schema walk it.  A
  reference costs one unit of fuel, and the store's size is fuel enough for every tree
  and acyclic graph in it; \<open>None\<close> is a cycle or a dangling reference.
\<close>

fun reify :: "nat \<Rightarrow> heap \<Rightarrow> hval \<Rightarrow> json option" where
  "reify n h HUndefined = Some JUndefined"
| "reify n h HNull = Some JNull"
| "reify n h (HBool b) = Some (JBool b)"
| "reify n h (HNum x) = Some (JNum x)"
| "reify n h (HStr s) = Some (JStr s)"
| "reify 0 h (HRef a) = None"
| "reify (Suc n) h (HRef a) =
     (if a < length h then
        (case h ! a of
           HObject ps \<Rightarrow>
             map_option JObj (those (map (\<lambda>(k, v). map_option (Pair k) (reify n h v)) ps))
         | HArray vs \<Rightarrow> map_option JArr (those (map (reify n h) vs)))
      else None)"

definition snapshot :: "heap \<Rightarrow> hval \<Rightarrow> json option" where
  "snapshot h v = reify (length h) h v"

text \<open>Truthiness, property reads and spreads on references.\<close>

fun truthyRef :: "hval \<Rightarrow> bool" where
  "truthyRef HUndefined = False"
| "truthyRef HNull = False"
| "truthyRef (HBool b) = b"
| "truthyRef (HNum n) = (n \<noteq> NaN \<and> n \<noteq> Finite 0)"
| "truthyRef (HStr s) = (s \<noteq> [])"
| "truthyRef (HRef a) = True"

definition deref :: "heap \<Rightarrow> hval \<Rightarrow> hobj option" where
  "deref h v = (case v of HRef a \<Rightarrow> if a < length h then Some (h ! a) else None | _ \<Rightarrow> None)"

definition getField :: "heap \<Rightarrow> hval \<Rightarrow> string \<Rightarrow> hval" where
  "getField h v k =
     (case deref h v of
        Some (HObject ps) \<Rightarrow> (case map_of ps k of Some x \<Rightarrow> x | None \<Rightarrow> HUndefined)
      | _ \<Rightarrow> HUndefined)"

definition spreadProperties :: "heap \<Rightarrow> hval \<Rightarrow> (string \<times> hval) list" where
  "spreadProperties h v =
     (case deref h v of
        Some (HObject ps) \<Rightarrow> ps
      | Some (HArray vs) \<Rightarrow> map (\<lambda>i. (digits i, vs ! i)) [0..<length vs]
      | None \<Rightarrow> (case v of HStr s \<Rightarrow> map (\<lambda>i. (digits i, HStr [s ! i])) [0..<length s] | _ \<Rightarrow> []))"

definition spreadElements :: "heap \<Rightarrow> hval \<Rightarrow> hval list option" where
  "spreadElements h v =
     (case deref h v of
        Some (HArray vs) \<Rightarrow> Some vs
      | Some (HObject ps) \<Rightarrow> None
      | None \<Rightarrow> (case v of HStr s \<Rightarrow> Some (map (\<lambda>c. HStr [c]) s) | _ \<Rightarrow> None))"

text \<open>The elements of \<^verbatim>\<open>[...(page.sections ?? [])]\<close>, where the spread does not throw.\<close>

definition existingSections :: "heap \<Rightarrow> hval \<Rightarrow> hval list option" where
  "existingSections h page =
     (case getField h page ''sections'' of
        HUndefined \<Rightarrow> Some [] | HNull \<Rightarrow> Some [] | s \<Rightarrow> spreadElements h s)"

text \<open>
  A reference of the list as the loop tests and prints it, and \<^verbatim>\<open>typeGuards.isSection\<close>
  on a reference.  A value whose tree cannot be read is taken as an object that is not
  a section.
\<close>

definition view :: "heap \<Rightarrow> hval \<Rightarrow> json" where
  "view h v = (case snapshot h v of Some j \<Rightarrow> j | None \<Rightarrow> JObj [])"

definition isSectionRef :: "builtins \<Rightarrow> heap \<Rightarrow> hval \<Rightarrow> bool" where
  "isSectionRef B h v = (case snapshot h v of Some j \<Rightarrow> isSection B j | None \<Rightarrow> False)"

text \<open>
  \<^verbatim>\<open>resolveSharedSections\<close> on references: the same tests and the same loop as on
  values.  \<^verbatim>\<open>updatedSections\<close> is a new array, the returned page a new object
  \<^verbatim>\<open>{...page, sections: updatedSections}\<close>; \<^verbatim>\<open>updatedSections.push(sharedSec.section)\<close>
  pushes the reference the pool holds.
\<close>

definition resolveSharedSections_heap ::
  "builtins \<Rightarrow> hval appConfig \<Rightarrow> heap \<Rightarrow> hval \<Rightarrow> (error \<times> heap) + (hval \<times> heap)" where
  "resolveSharedSections_heap B cfg h page =
     (if \<not> truthyRef page
      then Inl (ValidationError ''PAGE_REQUIRED''
                 ''Page is required for resolving shared sections'', h)
      else
        let pool = sharedPool cfg in
        if \<not> enableSharedSections (featureFlags cfg) \<or> pool = [] then Inr (page, h)
        else
          (case deref h (getField h page ''sharedSectionRefs'') of
             Some (HArray refs) \<Rightarrow>
               (case existingSections h page of
                  None \<Rightarrow> Inl (TypeError ''page.sections is not iterable'', h)
                | Some existing \<Rightarrow>
                    (case resolveRefs B (isSectionRef B h) pool (map (view h) refs) existing {} of
                       Inl e \<Rightarrow> Inl (e, h)
                     | Inr updatedSections \<Rightarrow>
                         (case alloc (HArray updatedSections) h of
                            (sectionsRef, h1) \<Rightarrow>
                              Inr (alloc (HObject (setProperty (spreadProperties h page)
                                                     ''sections'' sectionsRef)) h1))))
           | _ \<Rightarrow> Inl (ValidationError ''INVALID_SHARED_REFS''
                       ''sharedSectionRefs must be an array'', h)))"

text \<open>The store, the template registry and the module state, for \<^verbatim>\<open>templateUtils\<close>.\<close>

record hstate =
  heap :: heap
  templateRegistry :: "hval templateRegistry"
  moduleState :: state

text \<open>The replacement of a placeholder: \<^verbatim>\<open>String(variables[key] ?? '')\<close>.\<close>

definition replacement :: "builtins \<Rightarrow> (string \<times> json) list \<Rightarrow> string \<Rightarrow> string option" where
  "replacement B variables key =
     (case getProp (JObj variables) key of
        JUndefined \<Rightarrow> Some [] | JNull \<Rightarrow> Some [] | v \<Rightarrow> toString B v)"

text \<open>
  The first step of \<^verbatim>\<open>instantiate\<close> after the spread: with at least one declared
  variable, the section is serialized, its placeholders replaced, and the text parsed
  into new objects; with none, the section is left as it is.
\<close>

definition replaceVariables ::
  "builtins \<Rightarrow> hval template \<Rightarrow> (string \<times> json) list \<Rightarrow> hval \<Rightarrow> heap \<Rightarrow>
     (error \<times> heap) + (hval \<times> heap)" where
  "replaceVariables B template variables section h =
     (if template_variables template \<noteq> [] then
        (case snapshot h section of
           None \<Rightarrow> Inl (TypeError ''Converting circular structure to JSON'', h)
         | Some j \<Rightarrow>
             (case jsonReplace B (replacement B variables) j of
                Inl e \<Rightarrow> Inl (e, h)
              | Inr j' \<Rightarrow> Inr (allocJson j' h)))
      else Inr (section, h))"

text \<open>\<^verbatim>\<open>{...a, ...b}\<close>\<close>

definition mergeProperties :: "(string \<times> 'v) list \<Rightarrow> (string \<times> 'v) list \<Rightarrow> (string \<times> 'v) list" where
  "mergeProperties a b = foldl (\<lambda>acc (k, v). setProperty acc k v) a b"

text \<open>
  The second step: with a prompt, the sections of \<^verbatim>\<open>generateAIContentSections\<close> (new
  objects) and, when there is one, \<^verbatim>\<open>{...section, ...aiContent[0]}\<close>.
\<close>

definition generateAIContent ::
  "builtins \<Rightarrow> 's appConfig \<Rightarrow> hval template \<Rightarrow> (string \<times> json) list \<Rightarrow> hval \<Rightarrow> heap \<Rightarrow> state \<Rightarrow>
     (error \<times> heap \<times> state) + (hval \<times> heap \<times> state)" where
  "generateAIContent B cfg template variables section h st =
     (if truthyStr (aiPrompt template) then
        (case generateAIContentSections B cfg (aiPrompt template) variables st of
           Inl (e, st') \<Rightarrow> Inl (e, h, st')
         | Inr (aiSections, st') \<Rightarrow>
             (case allocJson (JArr aiSections) h of
                (aiRef, h1) \<Rightarrow>
                  (case spreadElements h1 aiRef of
                     Some (first # others) \<Rightarrow>
                       (case alloc (HObject (mergeProperties (spreadProperties h1 section)
                                              (spreadProperties h1 first))) h1 of
                          (merged, h2) \<Rightarrow> Inr (merged, h2, st'))
                   | _ \<Rightarrow> Inr (section, h1, st'))))
      else Inr (section, h, st))"

text \<open>
  \<^verbatim>\<open>templateUtils.instantiate\<close>: the template of that id (an id that names a property
  of \<^verbatim>\<open>Object.prototype\<close> passes \<^verbatim>\<open>get\<close> and fails at
  \<^verbatim>\<open>template.variables.length\<close>), the spread \<^verbatim>\<open>{ ...template.section }\<close>, and the
  two steps.
\<close>

definition templateUtils_instantiate ::
  "builtins \<Rightarrow> 's appConfig \<Rightarrow> string \<Rightarrow> (string \<times> json) list \<Rightarrow> hstate \<Rightarrow>
     (error \<times> hstate) + (hval \<times> hstate)" where
  "templateUtils_instantiate B cfg templateId variables hs =
     (case registryGet (templateRegistry hs) templateId of
        Absent \<Rightarrow> Inl (ValidationError ''Template not found'' ''TEMPLATE_NOT_FOUND'', hs)
      | Inherited \<Rightarrow>
          (case alloc (HObject []) (heap hs) of
             (section, h1) \<Rightarrow>
               Inl (TypeError ''Cannot read properties of undefined (reading length)'',
                    hs\<lparr>heap := h1\<rparr>))
      | Own template \<Rightarrow>
          (case alloc (HObject (spreadProperties (heap hs) (template_section template))) (heap hs) of
             (section, h1) \<Rightarrow>
               (case replaceVariables B template variables section h1 of
                  Inl (e, h2) \<Rightarrow> Inl (e, hs\<lparr>heap := h2\<rparr>)
                | Inr (section', h2) \<Rightarrow>
                    (case generateAIContent B cfg template variables section' h2 (moduleState hs) of
                       Inl (e, h3, st') \<Rightarrow> Inl (e, hs\<lparr>heap := h3, moduleState := st'\<rparr>)
                     | Inr (section'', h3, st') \<Rightarrow>
                         Inr (section'', hs\<lparr>heap := h3, moduleState := st'\<rparr>)))))"

section \<open>Notions used in the statements\<close>

text \<open>Parsing the result of a parse gives it back.\<close>

definition idempotent :: "builtins \<Rightarrow> schema \<Rightarrow> bool" where
  "idempotent B s \<longleftrightarrow> (\<forall>v w. parse B s v = Some w \<longrightarrow> parse B s w = Some w)"


text \<open>A rule that \<^verbatim>\<open>applyProgrammaticSEO\<close> generates pages for.\<close>

definition generatesFromLocations :: "routeRule \<Rightarrow> bool" where
  "generatesFromLocations r \<longleftrightarrow> ruleType r = Dynamic \<and> generateFrom r = Some Locations"

text \<open>Every slug of the cross product of cities and services reads as registered.\<close>

definition allPresent :: "state \<Rightarrow> bool" where
  "allPresent st \<longleftrightarrow>
     (\<forall>c \<in> set cities. \<forall>s \<in> set services. getPageBySlug st (slugOf c s) \<noteq> Absent)"

text \<open>The error of a call that threw.\<close>

fun thrown :: "(error \<times> state) + state \<Rightarrow> error option" where
  "thrown (Inl (e, st)) = Some e"
| "thrown (Inr st) = None"

text \<open>\<open>n\<close> runs of the generator in succession, stopping at the first that throws.\<close>

fun runTimes :: "builtins \<Rightarrow> 's appConfig \<Rightarrow> nat \<Rightarrow> state \<Rightarrow> (error \<times> state) + state" where
  "runTimes B cfg 0 st = Inr st"
| "runTimes B cfg (Suc n) st =
     (case applyProgrammaticSEO B cfg st of
        Inl e \<Rightarrow> Inl e
      | Inr st' \<Rightarrow> runTimes B cfg n st')"

text \<open>The calls of the AI generator made between two states, and their instructions.\<close>

definition newCalls :: "state \<Rightarrow> state \<Rightarrow> (string option \<times> (string \<times> json) list) list" where
  "newCalls st st' = drop (length (aiCalls st)) (aiCalls st')"

definition callsFrom :: "string option \<Rightarrow> state \<Rightarrow> state \<Rightarrow> bool" where
  "callsFrom i st st' \<longleftrightarrow>
     (\<exists>new. aiCalls st' = aiCalls st @ new \<and> (\<forall>call \<in> set new. fst call = i))"



text \<open>
  The claim about shared sections in its own words: each reference id counts once, at
  its first occurrence; an id resolves when the pool has an entry of that id (the first
  such entry) whose payload is a section.
\<close>

fun firstOccurrences :: "'a list \<Rightarrow> 'a list" where
  "firstOccurrences [] = []"
| "firstOccurrences (x # xs) = x # filter (\<lambda>y. y \<noteq> x) (firstOccurrences xs)"

definition lookupShared :: "('s \<Rightarrow> bool) \<Rightarrow> 's sharedSection list \<Rightarrow> string \<Rightarrow> 's option" where
  "lookupShared valid pool r =
     (case find (\<lambda>s. sharedId s = r) pool of
        None \<Rightarrow> None
      | Some e \<Rightarrow> if valid (sharedPayload e) then Some (sharedPayload e) else None)"

definition resolvedOnce :: "('s \<Rightarrow> bool) \<Rightarrow> 's sharedSection list \<Rightarrow> string list \<Rightarrow> 's list" where
  "resolvedOnce valid pool ids = List.map_filter (lookupShared valid pool) (firstOccurrences ids)"

text \<open>
  The addresses reachable from a value; a value that is not a reference below \<open>n\<close>; a
  store whose objects from \<open>n\<close> on refer to nothing below \<open>n\<close>; a store that grew by such
  objects.
\<close>

fun children :: "hobj \<Rightarrow> hval list" where
  "children (HObject ps) = map snd ps"
| "children (HArray vs) = vs"

inductive reaches :: "heap \<Rightarrow> hval \<Rightarrow> addr \<Rightarrow> bool" for h :: heap where
  root: "reaches h (HRef a) a"
| step: "reaches h v a \<Longrightarrow> a < length h \<Longrightarrow> HRef b \<in> set (children (h ! a)) \<Longrightarrow> reaches h v b"

definition freshFrom :: "nat \<Rightarrow> hval \<Rightarrow> bool" where
  "freshFrom n v \<longleftrightarrow> (\<forall>b. v = HRef b \<longrightarrow> n \<le> b)"

definition closedFrom :: "nat \<Rightarrow> heap \<Rightarrow> bool" where
  "closedFrom n h \<longleftrightarrow>
     (\<forall>a. n \<le> a \<and> a < length h \<longrightarrow> (\<forall>v \<in> set (children (h ! a)). freshFrom n v))"

definition extends :: "nat \<Rightarrow> heap \<Rightarrow> heap \<Rightarrow> bool" where
  "extends n h h' \<longleftrightarrow>
     (\<exists>new. h' = h @ new \<and> (\<forall>c \<in> set new. \<forall>v \<in> set (children c). freshFrom n v))"

text \<open>What a call returned, and the state it left.\<close>

fun returned :: "(error \<times> 'st) + ('a \<times> 'st) \<Rightarrow> 'a option" where
  "returned (Inl (e, st)) = None"
| "returned (Inr (x, st)) = Some x"

fun stateOf :: "(error \<times> 'st) + ('a \<times> 'st) \<Rightarrow> 'st" where
  "stateOf (Inl (e, st)) = st"
| "stateOf (Inr (x, st)) = st"

section \<open>Concrete configurations and states\<close>

text \<open>
  One choice of the engine's functions, for evaluating the model on concrete inputs.
\<close>

definition stubBuiltins :: builtins where
  "stubBuiltins =
     \<lparr>isUrl = (\<lambda>s. take 8 s = ''https://''),
      isDatetime = (\<lambda>s. length s = 24),
      numberToString = (\<lambda>n. ''0''),
      randomUUID = (\<lambda>n. ''uuid-'' @ digits n),
      toISOString = (\<lambda>n. ''2024-12-17T02:33:00.000Z''),
      jsonReplace = (\<lambda>f v. Inr v)\<rparr>"

text \<open>
  The properties of the literal \<^verbatim>\<open>configData\<close> that the functions read: the three
  flags on, programmatic SEO enabled with its one rule, no shared section, AI content
  enabled.
\<close>

definition siteConfig :: "json appConfig" where
  "siteConfig =
     \<lparr>featureFlags = \<lparr>enableAIContent = True, enableAdvancedSEO = True,
                       enableProgrammaticSEO = True, enableSharedSections = True\<rparr>,
      advancedConfig = Some
        \<lparr>seo = Some \<lparr>programmaticSEO =
           \<lparr>seoEnabled = True,
            routeRules = [\<lparr>pattern = ''/:city/:service'', ruleType = Dynamic,
                           generateFrom = Some Locations,
                           aiInstructions = Some ''Generate city-service pages using AI''\<rparr>],
            localization = True,
            sharedSections = []\<rparr>\<rparr>,
         aiContent = Some \<lparr>aiEnabled = True\<rparr>\<rparr>\<rparr>"

text \<open>
  The same configuration with two rules: a static rule carrying instructions, then the
  rule that generates from locations, carrying other instructions.
\<close>

definition twoRuleConfig :: "json appConfig" where
  "twoRuleConfig =
     \<lparr>featureFlags = \<lparr>enableAIContent = True, enableAdvancedSEO = True,
                       enableProgrammaticSEO = True, enableSharedSections = True\<rparr>,
      advancedConfig = Some
        \<lparr>seo = Some \<lparr>programmaticSEO =
           \<lparr>seoEnabled = True,
            routeRules = [\<lparr>pattern = ''/about'', ruleType = Static,
                           generateFrom = None, aiInstructions = Some ''A''\<rparr>,
                          \<lparr>pattern = ''/:city/:service'', ruleType = Dynamic,
                           generateFrom = Some Locations, aiInstructions = Some ''B''\<rparr>],
            localization = True,
            sharedSections = []\<rparr>\<rparr>,
         aiContent = Some \<lparr>aiEnabled = True\<rparr>\<rparr>\<rparr>"

text \<open>The module state at load: nothing registered.\<close>

definition emptyState :: state where
  "emptyState = \<lparr>sectionRegistry = Map.empty, pageRegistry = Map.empty, draws = 0, aiCalls = []\<rparr>"

definition textItem :: sectionRegistryItem where
  "textItem = \<lparr>component = ''TextSection'', label = ''Text'', icon = ''type'',
                description = ''Plain text'', generateContent = None\<rparr>"

text \<open>The state after \<^verbatim>\<open>sectionRegistryUtils.register('text', item)\<close>.\<close>

definition readyState :: state where
  "readyState = emptyState\<lparr>sectionRegistry := [''text'' \<mapsto> textItem]\<rparr>"

definition homePage :: page where
  "homePage =
     \<lparr>pageId = ''p-1'', pageType = ''home'', slug = ''/'', status = None, priority = None,
      meta = None, sections = [], navigation = JUndefined, pageLocale = None, clusterRefs = [],
      sharedSectionRefs = [], version = 1, lastModified = ''2024-12-17T02:33:00.000Z'',
      lastModifiedBy = ''system'', publishedAt = None, publishedBy = None\<rparr>"

text \<open>The state after \<^verbatim>\<open>registerPage(homePage)\<close> as well.\<close>

definition homeState :: state where
  "homeState = readyState\<lparr>pageRegistry := [''/'' \<mapsto> homePage]\<rparr>"

definition heroTemplate :: "json template" where
  "heroTemplate =
     \<lparr>template_id = ''hero-basic'', template_name = ''Hero'', template_description = None,
      template_section = JObj [(''id'', JStr ''s-1''), (''type'', JStr ''hero''),
                              (''fields'', JObj [])],
      template_variables = [], aiPrompt = None, category = None, tags = []\<rparr>"

text \<open>A shared section, a page section, a pool holding the shared section, and a page.\<close>

definition promoSection :: json where
  "promoSection = JObj [(''id'', JStr ''shared-promo''), (''type'', JStr ''text''),
     (''fields'', JObj [(''intro'', JObj [(''id'', JStr ''intro''), (''type'', JStr ''text''),
                                          (''value'', JStr ''Book today'')])])]"

definition heroSection :: json where
  "heroSection = JObj [(''id'', JStr ''hero-1''), (''type'', JStr ''hero''), (''fields'', JObj [])]"

definition poolConfig :: "json appConfig" where
  "poolConfig =
     \<lparr>featureFlags = \<lparr>enableAIContent = True, enableAdvancedSEO = True,
                       enableProgrammaticSEO = True, enableSharedSections = True\<rparr>,
      advancedConfig = Some
        \<lparr>seo = Some \<lparr>programmaticSEO =
           \<lparr>seoEnabled = True, routeRules = [], localization = True,
            sharedSections = [\<lparr>sharedId = ''promo'', sharedPayload = promoSection\<rparr>]\<rparr>\<rparr>,
         aiContent = Some \<lparr>aiEnabled = True\<rparr>\<rparr>\<rparr>"

definition draftPage :: "json list \<Rightarrow> json" where
  "draftPage refs =
     JObj [(''id'', JStr ''p-1''), (''type'', JStr ''home''), (''slug'', JStr ''/''),
           (''sections'', JArr [heroSection]),
           (''sharedSectionRefs'', JArr refs),
           (''lastModified'', JStr ''2024-12-17T02:33:00.000Z''),
           (''lastModifiedBy'', JStr ''system'')]"

text \<open>An untyped configuration with an empty \<^verbatim>\<open>advancedConfig\<close> and one flag given.\<close>

definition advancedOnly :: "bool \<Rightarrow> json" where
  "advancedOnly b =
     JObj [(''featureFlags'', JObj [(''enableAdvancedSEO'', JBool b)]),
           (''advancedConfig'', JObj [])]"

text \<open>
  A store with a shared section (at 1), a page (at 6) with one section (at 3) and one
  reference, and a configuration whose pool holds the shared section by reference.
\<close>

definition sectionHeap :: heap where
  "sectionHeap =
     [HObject [],
      HObject [(''id'', HStr ''shared-promo''), (''type'', HStr ''text''), (''fields'', HRef 0)],
      HObject [],
      HObject [(''id'', HStr ''hero-1''), (''type'', HStr ''hero''), (''fields'', HRef 2)],
      HArray [HRef 3],
      HArray [HStr ''promo''],
      HObject [(''id'', HStr ''p-1''), (''type'', HStr ''home''), (''slug'', HStr ''/''),
               (''sections'', HRef 4), (''sharedSectionRefs'', HRef 5)]]"

definition refConfig :: "bool \<Rightarrow> hval appConfig" where
  "refConfig flag =
     \<lparr>featureFlags = \<lparr>enableAIContent = True, enableAdvancedSEO = True,
                       enableProgrammaticSEO = True, enableSharedSections = flag\<rparr>,
      advancedConfig = Some
        \<lparr>seo = Some \<lparr>programmaticSEO =
           \<lparr>seoEnabled = True, routeRules = [], localization = True,
            sharedSections = [\<lparr>sharedId = ''promo'', sharedPayload = HRef 1\<rparr>]\<rparr>\<rparr>,
         aiContent = Some \<lparr>aiEnabled = True\<rparr>\<rparr>\<rparr>"

text \<open>
  A store with the skeleton section of a template (at 2, its fields object at 1), the
  template with the variables it declares, and the state that has it registered.
\<close>

definition templateHeap :: heap where
  "templateHeap =
     [HObject [(''id'', HStr ''headline''), (''type'', HStr ''text''),
               (''value'', HStr ''Hello ${city}'')],
      HObject [(''headline'', HRef 0)],
      HObject [(''id'', HStr ''s-1''), (''type'', HStr ''hero''), (''fields'', HRef 1)]]"

definition heroSkeleton :: "json list \<Rightarrow> hval template" where
  "heroSkeleton vars =
     \<lparr>template_id = ''hero-basic'', template_name = ''Hero'', template_description = None,
      template_section = HRef 2, template_variables = vars, aiPrompt = None,
      category = None, tags = []\<rparr>"

definition cityVariable :: json where
  "cityVariable = JObj [(''key'', JStr ''city''), (''label'', JStr ''City''), (''type'', JStr ''text'')]"

definition templateState :: "json list \<Rightarrow> hstate" where
  "templateState vars =
     \<lparr>heap = templateHeap, templateRegistry = [''hero-basic'' \<mapsto> heroSkeleton vars],
      moduleState = emptyState\<rparr>"

section \<open>Properties of parsing\<close>

lemma those_map_Some:
  "those (map f xs) = Some ys \<longleftrightarrow> list_all2 (\<lambda>x y. f x = Some y) xs ys"
proof (induction xs arbitrary: ys)
  case Nil
  show ?case by auto
next
  case (Cons x xs)
  show ?case
    by (cases "f x"; cases ys) (auto simp: Cons.IH)
qed

lemma map_of_filter_distinct:
  "distinct (map fst ps) \<Longrightarrow> (k, w) \<in> set ps \<Longrightarrow>
     map_of (filter Q ps) k = (if Q (k, w) then Some w else None)"
proof (induction ps)
  case Nil
  then show ?case by simp
next
  case (Cons p ps)
  show ?case
  proof (cases "p = (k, w)")
    case True
    with Cons.prems have "k \<notin> fst ` set ps" by auto
    then have "map_of (filter Q ps) k = None"
      by (auto simp: map_of_eq_None_iff)
    with True show ?thesis by simp
  next
    case False
    with Cons.prems have "(k, w) \<in> set ps" by auto
    moreover from this have "k \<in> fst ` set ps" by force
    with Cons.prems have "fst p \<noteq> k" by auto
    with Cons show ?thesis by (cases p) auto
  qed
qed

lemma parse_undefined: "parse B s v = Some JUndefined \<Longrightarrow> v = JUndefined"
proof (induction B s v rule: parse.induct)
  case (14 B d options v)
  from "14.prems" obtain kvs l opt where "v = JObj kvs" "getProp v d = JStr l"
    "find (\<lambda>opt. discriminatorOf d opt = Some l) options = Some opt"
    "parse B opt v = Some JUndefined"
    by (auto split: json.splits option.splits)
  with "14.IH" show ?case by blast
qed (auto split: json.splits if_splits option.splits)

lemma idempotent_simple [simp]:
  "idempotent B ZAny" "idempotent B ZUnknown" "idempotent B (ZString cs)"
  "idempotent B (ZNumber ns)" "idempotent B ZBoolean" "idempotent B (ZLiteral l)"
  "idempotent B (ZEnum vs)"
  by (auto simp: idempotent_def split: json.splits if_splits)

lemma idempotent_ZOptional [simp]: "idempotent B s \<Longrightarrow> idempotent B (ZOptional s)"
  by (auto simp: idempotent_def split: if_splits)

lemma idempotent_ZDefault [simp]: "idempotent B s \<Longrightarrow> idempotent B (ZDefault s d)"
  by (auto simp: idempotent_def dest: parse_undefined split: if_splits)

lemma idempotent_ZRefine [simp]: "idempotent B s \<Longrightarrow> idempotent B (ZRefine s c)"
  by (auto simp: idempotent_def split: if_splits option.splits)

lemma idempotent_ZArray [simp]:
  assumes "idempotent B s"
  shows "idempotent B (ZArray s)"
  unfolding idempotent_def
proof (intro allI impI)
  fix v w
  assume p: "parse B (ZArray s) v = Some w"
  then obtain xs ys where v: "v = JArr xs" and w: "w = JArr ys"
    and all: "list_all2 (\<lambda>x y. parse B s x = Some y) xs ys"
    by (auto simp: those_map_Some split: json.splits)
  from all assms have "list_all2 (\<lambda>x y. parse B s x = Some y) ys ys"
    by (induction rule: list_all2_induct) (auto simp: idempotent_def)
  with w show "parse B (ZArray s) w = Some w"
    by (simp add: those_map_Some)
qed

lemma idempotent_ZTuple [simp]:
  assumes "\<forall>s \<in> set items. idempotent B s"
  shows "idempotent B (ZTuple items)"
  unfolding idempotent_def
proof (intro allI impI)
  fix v w
  assume p: "parse B (ZTuple items) v = Some w"
  then obtain xs ys where v: "v = JArr xs" and w: "w = JArr ys" and len: "length xs = length items"
    and all: "list_all2 (\<lambda>a y. (case a of (s, x) \<Rightarrow> parse B s x) = Some y) (zip items xs) ys"
    by (auto simp: those_map_Some split: json.splits if_splits)
  from all len have len': "length ys = length items"
    by (auto dest: list_all2_lengthD)
  have "list_all2 (\<lambda>a y. (case a of (s, x) \<Rightarrow> parse B s x) = Some y) (zip items ys) ys"
    unfolding list_all2_conv_all_nth
  proof (intro conjI allI impI)
    show "length (zip items ys) = length ys" using len' by simp
    fix i assume "i < length (zip items ys)"
    with len' len have i: "i < length items" "i < length xs" "i < length ys" by auto
    with all have "parse B (items ! i) (xs ! i) = Some (ys ! i)"
      by (auto simp: list_all2_conv_all_nth)
    moreover from i assms have "idempotent B (items ! i)" by auto
    ultimately have "parse B (items ! i) (ys ! i) = Some (ys ! i)"
      by (auto simp: idempotent_def)
    with i show "(case zip items ys ! i of (s, x) \<Rightarrow> parse B s x) = Some (ys ! i)"
      by simp
  qed
  with w len' show "parse B (ZTuple items) w = Some w"
    by (simp add: those_map_Some)
qed

lemma idempotent_ZRecord [simp]:
  assumes "idempotent B s"
  shows "idempotent B (ZRecord s)"
  unfolding idempotent_def
proof (intro allI impI)
  fix v w
  assume p: "parse B (ZRecord s) v = Some w"
  then obtain kvs ps where v: "v = JObj kvs"
    and w: "w = JObj (filter (\<lambda>(k, w). k \<noteq> ''__proto__'') ps)"
    and all: "list_all2 (\<lambda>a p. (case a of (k, x) \<Rightarrow> map_option (Pair k) (parse B s x)) = Some p) kvs ps"
    by (auto simp: those_map_Some split: json.splits)
  from all assms have "list_all2 (\<lambda>a p. (case a of (k, x) \<Rightarrow> map_option (Pair k) (parse B s x)) = Some p) ps ps"
    by (induction rule: list_all2_induct) (auto simp: idempotent_def)
  then have "\<forall>p \<in> set ps. (case p of (k, x) \<Rightarrow> map_option (Pair k) (parse B s x)) = Some p"
    by (simp add: list_all2_same)
  then have "list_all2 (\<lambda>a p. (case a of (k, x) \<Rightarrow> map_option (Pair k) (parse B s x)) = Some p)
      (filter (\<lambda>(k, w). k \<noteq> ''__proto__'') ps) (filter (\<lambda>(k, w). k \<noteq> ''__proto__'') ps)"
    by (simp add: list_all2_same)
  with w show "parse B (ZRecord s) w = Some w"
    by (auto simp: those_map_Some intro!: exI [of _ "filter (\<lambda>(k, w). k \<noteq> ''__proto__'') ps"])
qed

text \<open>What parsing an object yields: the parsed value of each key of the shape.\<close>

lemma parse_ZObject_Some:
  "parse B (ZObject uk shape) v = Some w \<longleftrightarrow>
     (\<exists>kvs ps. v = JObj kvs \<and> \<not> (uk = Strict \<and> (\<exists>k \<in> fst ` set kvs. k \<notin> fst ` set shape)) \<and>
        list_all2 (\<lambda>a p. (case a of (k, s) \<Rightarrow> map_option (Pair k) (parse B s (getProp v k))) = Some p) shape ps \<and>
        w = JObj (objectOutput kvs ps))"
  by (cases v) (auto simp: those_map_Some)

lemma parsed_keys:
  "list_all2 (\<lambda>a p. (case a of (k, s) \<Rightarrow> map_option (Pair k) (f k s)) = Some p) shape ps \<Longrightarrow>
     map fst ps = map fst shape"
  by (induction rule: list_all2_induct) auto

lemma getProp_objectOutput:
  assumes "distinct (map fst ps)" "(k, w) \<in> set ps"
  shows "getProp (JObj (objectOutput kvs ps)) k = w"
  using map_of_filter_distinct [OF assms, of "\<lambda>(k, w). w \<noteq> JUndefined \<or> k \<in> fst ` set kvs"]
  by (auto simp: objectOutput_def)

lemma objectOutput_keys:
  assumes "distinct (map fst ps)" "(k, w) \<in> set ps"
  shows "k \<in> fst ` set (objectOutput kvs ps) \<longleftrightarrow> w \<noteq> JUndefined \<or> k \<in> fst ` set kvs"
proof -
  have "k \<in> fst ` set (objectOutput kvs ps) \<longleftrightarrow> map_of (objectOutput kvs ps) k \<noteq> None"
    by (simp add: map_of_eq_None_iff)
  with map_of_filter_distinct [OF assms, of "\<lambda>(k, w). w \<noteq> JUndefined \<or> k \<in> fst ` set kvs"]
  show ?thesis by (auto simp: objectOutput_def)
qed

lemma objectOutput_cong:
  "(\<And>k w. (k, w) \<in> set ps \<Longrightarrow>
      (w \<noteq> JUndefined \<or> k \<in> fst ` set a) = (w \<noteq> JUndefined \<or> k \<in> fst ` set b)) \<Longrightarrow>
   objectOutput a ps = objectOutput b ps"
  unfolding objectOutput_def
proof (rule filter_cong)
  fix x
  assume h: "\<And>k w. (k, w) \<in> set ps \<Longrightarrow>
      (w \<noteq> JUndefined \<or> k \<in> fst ` set a) = (w \<noteq> JUndefined \<or> k \<in> fst ` set b)"
    and x: "x \<in> set ps"
  obtain k w where "x = (k, w)" by (cases x)
  with h [of k w] x
  show "(case x of (k, w) \<Rightarrow> w \<noteq> JUndefined \<or> k \<in> fst ` set a) =
        (case x of (k, w) \<Rightarrow> w \<noteq> JUndefined \<or> k \<in> fst ` set b)"
    by simp
qed simp

lemma objectOutput_again:
  assumes "distinct (map fst ps)"
  shows "objectOutput (objectOutput kvs ps) ps = objectOutput kvs ps"
proof (rule objectOutput_cong)
  fix k w
  assume "(k, w) \<in> set ps"
  from objectOutput_keys [OF assms this, of kvs]
  show "(w \<noteq> JUndefined \<or> k \<in> fst ` set (objectOutput kvs ps)) =
        (w \<noteq> JUndefined \<or> k \<in> fst ` set kvs)"
    by auto
qed

lemma idempotent_ZObject [simp]:
  assumes keys: "distinct (map fst shape)"
    and fields: "\<forall>(k, s) \<in> set shape. idempotent B s"
  shows "idempotent B (ZObject uk shape)"
  unfolding idempotent_def
proof (intro allI impI)
  fix v w
  assume "parse B (ZObject uk shape) v = Some w"
  then obtain kvs ps where v: "v = JObj kvs"
    and all: "list_all2 (\<lambda>a p. (case a of (k, s) \<Rightarrow> map_option (Pair k) (parse B s (getProp v k))) = Some p) shape ps"
    and w: "w = JObj (objectOutput kvs ps)"
    unfolding parse_ZObject_Some by blast
  from parsed_keys [OF all] keys have dps: "distinct (map fst ps)" and fst: "map fst ps = map fst shape"
    by auto
  have known: "\<not> (\<exists>k \<in> fst ` set (objectOutput kvs ps). k \<notin> fst ` set shape)"
  proof -
    have "fst ` set (objectOutput kvs ps) \<subseteq> fst ` set ps" by (auto simp: objectOutput_def)
    also have "fst ` set ps = fst ` set shape" using fst by (metis set_map)
    finally show ?thesis by auto
  qed
  have again: "list_all2 (\<lambda>a p. (case a of (k, s) \<Rightarrow> map_option (Pair k) (parse B s (getProp w k))) = Some p) shape ps"
    using all
  proof (rule list.rel_mono_strong)
    fix ks p
    assume ks: "ks \<in> set shape" and p: "p \<in> set ps"
      and h: "(case ks of (k, s) \<Rightarrow> map_option (Pair k) (parse B s (getProp v k))) = Some p"
    obtain k s where [simp]: "ks = (k, s)" by (cases ks)
    from h obtain x where x: "parse B s (getProp v k) = Some x" "p = (k, x)" by auto
    from getProp_objectOutput [OF dps, of k x kvs] p x w have "getProp w k = x" by simp
    moreover from fields ks have "idempotent B s" by auto
    ultimately have "parse B s (getProp w k) = Some x" using x by (auto simp: idempotent_def)
    with x show "(case ks of (k, s) \<Rightarrow> map_option (Pair k) (parse B s (getProp w k))) = Some p"
      by simp
  qed
  show "parse B (ZObject uk shape) w = Some w"
    unfolding parse_ZObject_Some
    using w known again objectOutput_again [OF dps] by auto
qed

lemma list_all2_left: "list_all2 P xs ys \<Longrightarrow> x \<in> set xs \<Longrightarrow> \<exists>y \<in> set ys. P x y"
  by (induction rule: list_all2_induct) auto

lemma discriminatorOf_Some:
  "discriminatorOf d opt = Some l \<Longrightarrow>
     \<exists>uk shape. opt = ZObject uk shape \<and> map_of shape d = Some (ZLiteral l)"
  by (cases opt) (auto split: option.splits schema.splits)

lemma idempotent_ZDiscriminatedUnion [simp]:
  assumes opts: "\<forall>opt \<in> set options. idempotent B opt \<and>
      (\<forall>uk shape. opt = ZObject uk shape \<longrightarrow> distinct (map fst shape))"
  shows "idempotent B (ZDiscriminatedUnion d options)"
  unfolding idempotent_def
proof (intro allI impI)
  fix v w
  assume "parse B (ZDiscriminatedUnion d options) v = Some w"
  then obtain kvs l opt where v: "v = JObj kvs" and tag: "getProp v d = JStr l"
    and found: "find (\<lambda>opt. discriminatorOf d opt = Some l) options = Some opt"
    and p: "parse B opt v = Some w"
    by (auto split: json.splits option.splits)
  from found have mem: "opt \<in> set options" and disc: "discriminatorOf d opt = Some l"
    by (auto simp: find_Some_iff)
  from discriminatorOf_Some [OF disc] obtain uk shape where
    opt: "opt = ZObject uk shape" and lit: "map_of shape d = Some (ZLiteral l)"
    by blast
  from opts mem opt have keys: "distinct (map fst shape)" and idem: "idempotent B opt"
    by auto
  from p opt have "parse B (ZObject uk shape) v = Some w" by simp
  then obtain kvs' ps where "v = JObj kvs'"
    and all: "list_all2 (\<lambda>a p. (case a of (k, s) \<Rightarrow> map_option (Pair k) (parse B s (getProp v k))) = Some p) shape ps"
    and "w = JObj (objectOutput kvs' ps)"
    unfolding parse_ZObject_Some by blast
  with v have w: "w = JObj (objectOutput kvs ps)" by simp
  from lit have "(d, ZLiteral l) \<in> set shape" by (rule map_of_SomeD)
  from list_all2_left [OF all this] tag have inps: "(d, JStr l) \<in> set ps"
    by (auto split: if_splits)
  from parsed_keys [OF all] keys have "distinct (map fst ps)" by simp
  from getProp_objectOutput [OF this inps, of kvs] w have "getProp w d = JStr l"
    by simp
  moreover from idem p have "parse B opt w = Some w" by (auto simp: idempotent_def)
  ultimately show "parse B (ZDiscriminatedUnion d options) w = Some w"
    using w found by simp
qed

lemma idempotent_fieldSchema: "idempotent B fieldSchema"
  by (simp add: fieldSchema_def aiPromptFieldSchema_def fieldFormatEnum_def)

lemma idempotent_sectionSchema: "idempotent B sectionSchema"
  by (simp add: sectionSchema_def idempotent_fieldSchema sectionTypeEnum_def sectionIntentEnum_def
      alignmentEnum_def componentSizeEnum_def containerSizeEnum_def)

lemma parse_ZObject_field:
  assumes "parse B (ZObject uk shape) v = Some w" and "distinct (map fst shape)"
    and "(k, s) \<in> set shape"
  shows "parse B s (getProp v k) = Some (getProp w k)"
proof -
  from assms(1) obtain kvs ps where v: "v = JObj kvs"
    and all: "list_all2 (\<lambda>a p. (case a of (k, s) \<Rightarrow> map_option (Pair k) (parse B s (getProp v k))) = Some p) shape ps"
    and w: "w = JObj (objectOutput kvs ps)"
    unfolding parse_ZObject_Some by blast
  from list_all2_left [OF all assms(3)] obtain x where
    x: "parse B s (getProp v k) = Some x" "(k, x) \<in> set ps"
    by auto
  from parsed_keys [OF all] assms(2) have "distinct (map fst ps)" by simp
  from getProp_objectOutput [OF this x(2), of kvs] w x(1) show ?thesis by simp
qed

lemma parse_ZObject_object: "parse B (ZObject uk shape) v = Some w \<Longrightarrow> \<exists>kvs. w = JObj kvs"
  unfolding parse_ZObject_Some by blast

lemma parse_ZArray_elements:
  assumes "parse B (ZArray s) v = Some w" and "idempotent B s"
  shows "\<exists>ys. w = JArr ys \<and> (\<forall>y \<in> set ys. parse B s y = Some y)"
proof -
  from assms(1) obtain xs ys where w: "w = JArr ys"
    and all: "list_all2 (\<lambda>x y. parse B s x = Some y) xs ys"
    by (auto simp: those_map_Some split: json.splits)
  from all assms(2) have "list_all2 (\<lambda>x y. parse B s x = Some y) ys ys"
    by (induction rule: list_all2_induct) (auto simp: idempotent_def)
  with w show ?thesis by (simp add: list_all2_same)
qed

lemma parse_strings:
  "parse B (ZArray (ZString [])) v = Some w \<Longrightarrow> \<exists>ids. w = JArr (map JStr ids)"
proof -
  assume "parse B (ZArray (ZString [])) v = Some w"
  then obtain xs ys where w: "w = JArr ys"
    and all: "list_all2 (\<lambda>x y. parse B (ZString []) x = Some y) xs ys"
    by (auto simp: those_map_Some split: json.splits)
  from all have "\<exists>ids. ys = map JStr ids"
  proof (induction rule: list_all2_induct)
    case Nil
    show ?case by simp
  next
    case (Cons x xs y ys)
    then obtain ids s where "ys = map JStr ids" "y = JStr s"
      by (auto split: json.splits)
    then have "y # ys = map JStr (s # ids)" by simp
    then show ?case by (rule exI)
  qed
  with w show ?thesis by auto
qed

section \<open>Properties of the registries\<close>

lemma registryGet_present: "r k = Some v \<Longrightarrow> registryGet r k = Own v"
  by (simp add: registryGet_def)

text \<open>
  Claim C7.  A second \<^verbatim>\<open>register\<close> under a key already present fails in each of the
  three registries: the page registry throws on a slug already registered, the
  section-type registry on a type already registered, the template registry (with
  \<^verbatim>\<open>TEMPLATE_EXISTS\<close>) on an id already registered.  The state at the throw is the
  state before the call, so the existing entry is unchanged.
\<close>

theorem register_twice_fails:
  "(pageRegistry st (slug p) = Some p0 \<longrightarrow>
      registerPage p st = Inl (Error (''Page slug '' @ slug p @ '' already registered''), st)) \<and>
   (sectionRegistry st type = Some item0 \<longrightarrow>
      sectionRegistryUtils_register type item st =
        Inl (Error (''Section type '' @ type @ '' already registered''), st)) \<and>
   (r (template_id t) = Some t0 \<longrightarrow>
      templateUtils_register t r =
        Inl (ValidationError ''Template already exists'' ''TEMPLATE_EXISTS'', r))"
  by (simp add: registerPage_def sectionRegistryUtils_register_def templateUtils_register_def
      registryGet_present)


theorem register_twice_fails_witness:
  "registerPage homePage homeState =
     Inl (Error (''Page slug '' @ slug homePage @ '' already registered''), homeState) \<and>
   sectionRegistryUtils_register ''text'' textItem homeState =
     Inl (Error (''Section type '' @ ''text'' @ '' already registered''), homeState) \<and>
   templateUtils_register heroTemplate [''hero-basic'' \<mapsto> heroTemplate] =
     Inl (ValidationError ''Template already exists'' ''TEMPLATE_EXISTS'',
          [''hero-basic'' \<mapsto> heroTemplate])"
proof -
  have pages: "pageRegistry homeState (slug homePage) = Some homePage"
    by (simp add: homeState_def homePage_def)
  have types: "sectionRegistry homeState ''text'' = Some textItem"
    by (simp add: homeState_def readyState_def)
  have templates: "[''hero-basic'' \<mapsto> heroTemplate] (template_id heroTemplate) = Some heroTemplate"
    by (simp add: heroTemplate_def)
  from register_twice_fails [of homeState homePage homePage "''text''" textItem textItem
      "[''hero-basic'' \<mapsto> heroTemplate]" heroTemplate heroTemplate] pages types templates
  show ?thesis by blast
qed

section \<open>Properties of the generator\<close>

lemmas run_defs = applyProgrammaticSEO_def extractProgrammaticSEODetails_def seoConfigOf_def
  generatePage_def generateAIContentSections_def createSection_def createPage_def registerPage_def
  getPageBySlug_def registryGet_def sectionRegistryUtils_has_def aiContentEnabled_def
  slugOf_def cities_def services_def objectPrototypeKeys_def pageTypeEnum_def trim_def
  isWhiteSpace_def variableText_def Let_def

lemma trim_slugOf: "trim (slugOf c s) \<noteq> []"
  by (simp add: trim_def slugOf_def isWhiteSpace_def)

lemma slugOf_not_inherited: "slugOf c s \<notin> set objectPrototypeKeys"
  by (simp add: slugOf_def objectPrototypeKeys_def)

lemma createPage_city:
  "createPage B ''city'' (slugOf c s) st = Inr (p, st') \<Longrightarrow>
     slug p = slugOf c s \<and> pageRegistry st' = pageRegistry st"
  by (auto simp: createPage_def split: if_splits)

lemma generateAI_pages:
  "generateAIContentSections B cfg i vars st = Inr (g, st') \<Longrightarrow> pageRegistry st' = pageRegistry st"
  by (auto simp: generateAIContentSections_def createSection_def Let_def
      split: if_splits sum.splits option.splits)

lemma generatePage_present:
  "getPageBySlug st (slugOf c s) \<noteq> Absent \<Longrightarrow> generatePage B cfg r c s st = Inr st"
  by (simp add: generatePage_def)

lemma generatePage_grows:
  assumes "generatePage B cfg r c s st = Inr st'"
  shows "getPageBySlug st' (slugOf c s) \<noteq> Absent"
    and "getPageBySlug st k \<noteq> Absent \<Longrightarrow> getPageBySlug st' k \<noteq> Absent"
  using assms
  by (auto simp: generatePage_def registerPage_def getPageBySlug_def registryGet_def Let_def
      dest!: createPage_city generateAI_pages split: if_splits sum.splits option.splits)

lemma forServices_present:
  "\<forall>s \<in> set ss. getPageBySlug st (slugOf c s) \<noteq> Absent \<Longrightarrow> forServices B cfg r c ss st = Inr st"
  by (induction ss) (simp_all add: generatePage_present)

lemma forServices_grows:
  "forServices B cfg r c ss st = Inr st' \<Longrightarrow>
     (\<forall>s \<in> set ss. getPageBySlug st' (slugOf c s) \<noteq> Absent) \<and>
     (\<forall>k. getPageBySlug st k \<noteq> Absent \<longrightarrow> getPageBySlug st' k \<noteq> Absent)"
proof (induction ss arbitrary: st)
  case Nil
  then show ?case by simp
next
  case (Cons s ss)
  then obtain st1 where 1: "generatePage B cfg r c s st = Inr st1"
    and 2: "forServices B cfg r c ss st1 = Inr st'"
    by (auto split: sum.splits)
  from Cons.IH [OF 2] generatePage_grows [OF 1] show ?case by auto
qed

lemma forCities_present:
  "\<forall>c \<in> set cs. \<forall>s \<in> set services. getPageBySlug st (slugOf c s) \<noteq> Absent \<Longrightarrow>
     forCities B cfg r cs st = Inr st"
  by (induction cs) (simp_all add: forServices_present)

lemma forCities_grows:
  "forCities B cfg r cs st = Inr st' \<Longrightarrow>
     (\<forall>c \<in> set cs. \<forall>s \<in> set services. getPageBySlug st' (slugOf c s) \<noteq> Absent) \<and>
     (\<forall>k. getPageBySlug st k \<noteq> Absent \<longrightarrow> getPageBySlug st' k \<noteq> Absent)"
proof (induction cs arbitrary: st)
  case Nil
  then show ?case by simp
next
  case (Cons c cs)
  then obtain st1 where 1: "forServices B cfg r c services st = Inr st1"
    and 2: "forCities B cfg r cs st1 = Inr st'"
    by (auto split: sum.splits)
  from Cons.IH [OF 2] forServices_grows [OF 1] show ?case by auto
qed

lemma forRules_present: "allPresent st \<Longrightarrow> forRules B cfg rs st = Inr st"
  by (induction rs) (simp_all add: forCities_present allPresent_def)

lemma forRules_idempotent:
  "forRules B cfg rs st = Inr st' \<Longrightarrow>
     forRules B cfg rs st' = Inr st' \<and>
     ((\<exists>r \<in> set rs. generatesFromLocations r) \<longrightarrow> allPresent st')"
proof (induction rs arbitrary: st)
  case Nil
  then show ?case by simp
next
  case (Cons r rs)
  show ?case
  proof (cases "generatesFromLocations r")
    case True
    with Cons.prems obtain st1 where 1: "forCities B cfg r cities st = Inr st1"
      and 2: "forRules B cfg rs st1 = Inr st'"
      by (auto simp: generatesFromLocations_def split: sum.splits)
    from forCities_grows [OF 1] have p1: "allPresent st1" by (simp add: allPresent_def)
    with 2 have "st' = st1" by (simp add: forRules_present)
    moreover from p1 have "forRules B cfg (r # rs) st1 = Inr st1" by (rule forRules_present)
    ultimately show ?thesis using p1 by simp
  next
    case False
    then have "forRules B cfg (r # rs) = forRules B cfg rs"
      by (auto simp: generatesFromLocations_def)
    with Cons False show ?thesis by auto
  qed
qed

lemma runTimes_fixed: "applyProgrammaticSEO B cfg st = Inr st \<Longrightarrow> runTimes B cfg n st = Inr st"
  by (induction n) simp_all

lemma returned_state: "thrown r = None \<Longrightarrow> r = Inr (stateAfter r)"
  by (cases r) auto

text \<open>
  Claim C3, as amended.  When a run of \<^verbatim>\<open>applyProgrammaticSEO\<close> returns without
  throwing, a second run returns too and leaves the state as it is: it registers no page
  and throws no error, and so does any number of further runs.  With both flags true and
  a rule that generates from locations, a page is then registered at the slug of every
  city and service; the registry is keyed by slug, so there is one page per slug.
\<close>

theorem applyProgrammaticSEO_idempotent:
  assumes "applyProgrammaticSEO B cfg st = Inr st1"
  shows "applyProgrammaticSEO B cfg st1 = Inr st1 \<and>
         (\<forall>n. runTimes B cfg n st1 = Inr st1) \<and>
         (enableProgrammaticSEO (featureFlags cfg) \<and>
          (\<exists>c. seoConfigOf cfg = Some c \<and> seoEnabled c \<and>
               (\<exists>r \<in> set (routeRules c). generatesFromLocations r)) \<longrightarrow>
          (\<forall>c \<in> set cities. \<forall>s \<in> set services. \<exists>p. pageRegistry st1 (slugOf c s) = Some p))"
proof (cases "\<not> enableProgrammaticSEO (featureFlags cfg)
         \<or> \<not> (case seoConfigOf cfg of None \<Rightarrow> False | Some c \<Rightarrow> seoEnabled c)")
  case True
  with assms have "st1 = st" by (simp add: applyProgrammaticSEO_def)
  with assms True show ?thesis by (auto simp: runTimes_fixed)
next
  case False
  then obtain c where c: "seoConfigOf cfg = Some c" "seoEnabled c"
    by (auto split: option.splits)
  with False assms have run: "forRules B cfg (routeRules c) st = Inr st1"
    by (simp add: applyProgrammaticSEO_def extractProgrammaticSEODetails_def Let_def)
  from forRules_idempotent [OF run] have again: "forRules B cfg (routeRules c) st1 = Inr st1"
    and present: "(\<exists>r \<in> set (routeRules c). generatesFromLocations r) \<Longrightarrow> allPresent st1"
    by auto
  from again False c have fixed: "applyProgrammaticSEO B cfg st1 = Inr st1"
    by (simp add: applyProgrammaticSEO_def extractProgrammaticSEODetails_def Let_def)
  have "\<exists>p. pageRegistry st1 (slugOf a b) = Some p"
    if "\<exists>r \<in> set (routeRules c). generatesFromLocations r" "a \<in> set cities" "b \<in> set services"
    for a b
  proof -
    from present that have "getPageBySlug st1 (slugOf a b) \<noteq> Absent"
      by (simp add: allPresent_def)
    then show ?thesis
      using slugOf_not_inherited [of a b]
      by (auto simp: getPageBySlug_def registryGet_def split: option.splits)
  qed
  with fixed c show ?thesis by (auto simp: runTimes_fixed)
qed

lemma siteConfig_ready_returns:
  "thrown (applyProgrammaticSEO stubBuiltins siteConfig readyState) = None"
  by (simp add: run_defs siteConfig_def emptyState_def readyState_def stubBuiltins_def)

theorem applyProgrammaticSEO_idempotent_witness:
  "applyProgrammaticSEO stubBuiltins siteConfig readyState =
     Inr (stateAfter (applyProgrammaticSEO stubBuiltins siteConfig readyState)) \<and>
   applyProgrammaticSEO stubBuiltins siteConfig
       (stateAfter (applyProgrammaticSEO stubBuiltins siteConfig readyState)) =
     Inr (stateAfter (applyProgrammaticSEO stubBuiltins siteConfig readyState)) \<and>
   (\<exists>p. pageRegistry (stateAfter (applyProgrammaticSEO stubBuiltins siteConfig readyState))
          (slugOf ''sydney'' ''house-cleaning'') = Some p)"
proof -
  have first: "applyProgrammaticSEO stubBuiltins siteConfig readyState =
     Inr (stateAfter (applyProgrammaticSEO stubBuiltins siteConfig readyState))"
    using siteConfig_ready_returns by (rule returned_state)
  have flags: "enableProgrammaticSEO (featureFlags siteConfig) \<and>
     (\<exists>c. seoConfigOf siteConfig = Some c \<and> seoEnabled c \<and>
          (\<exists>r \<in> set (routeRules c). generatesFromLocations r))"
    by (simp add: siteConfig_def seoConfigOf_def generatesFromLocations_def)
  from applyProgrammaticSEO_idempotent [OF first] flags first show ?thesis
    by (simp add: cities_def services_def)
qed

text \<open>
  Claim C3 as stated fails where the first run throws.  With the configuration of the
  source and no section type registered, the first run throws in \<^verbatim>\<open>createSection\<close>
  before any page is registered, and the second run throws the same error.
\<close>

theorem applyProgrammaticSEO_second_run_throws:
  "enableProgrammaticSEO (featureFlags siteConfig) \<and>
   map_option seoEnabled (seoConfigOf siteConfig) = Some True \<and>
   thrown (applyProgrammaticSEO stubBuiltins siteConfig emptyState) =
     Some (Error ''Cannot create section: type text not found in registry'') \<and>
   thrown (applyProgrammaticSEO stubBuiltins siteConfig
            (stateAfter (applyProgrammaticSEO stubBuiltins siteConfig emptyState))) =
     Some (Error ''Cannot create section: type text not found in registry'')"
  by (simp add: run_defs siteConfig_def emptyState_def stubBuiltins_def)

lemma callsFrom_refl: "callsFrom i st st"
  by (simp add: callsFrom_def)

lemma callsFrom_trans: "callsFrom i st st1 \<Longrightarrow> callsFrom i st1 st2 \<Longrightarrow> callsFrom i st st2"
  by (auto simp: callsFrom_def)

lemma generatePage_calls:
  "callsFrom (aiInstructions r) st (stateAfter (generatePage B cfg r c s st))"
  by (auto simp: callsFrom_def generatePage_def generateAIContentSections_def createSection_def
      createPage_def registerPage_def Let_def split: sum.splits option.splits)

lemma forServices_calls:
  "callsFrom (aiInstructions r) st (stateAfter (forServices B cfg r c ss st))"
proof (induction ss arbitrary: st)
  case Nil
  show ?case by (simp add: callsFrom_refl)
next
  case (Cons s ss)
  show ?case
  proof (cases "generatePage B cfg r c s st")
    case (Inl e)
    with generatePage_calls [of r st B cfg c s] show ?thesis by simp
  next
    case (Inr st1)
    with generatePage_calls [of r st B cfg c s] Cons.IH [of st1] show ?thesis
      by (auto intro: callsFrom_trans)
  qed
qed

lemma forCities_calls:
  "callsFrom (aiInstructions r) st (stateAfter (forCities B cfg r cs st))"
proof (induction cs arbitrary: st)
  case Nil
  show ?case by (simp add: callsFrom_refl)
next
  case (Cons c cs)
  show ?case
  proof (cases "forServices B cfg r c services st")
    case (Inl e)
    with forServices_calls [of r st B cfg c services] show ?thesis by simp
  next
    case (Inr st1)
    with forServices_calls [of r st B cfg c services] Cons.IH [of st1] show ?thesis
      by (auto intro: callsFrom_trans)
  qed
qed

lemma forRules_calls:
  "\<exists>new. aiCalls (stateAfter (forRules B cfg rs st)) = aiCalls st @ new \<and>
     (\<forall>call \<in> set new. \<exists>r. find generatesFromLocations rs = Some r \<and> fst call = aiInstructions r)"
proof (induction rs arbitrary: st)
  case Nil
  show ?case by simp
next
  case (Cons r rs)
  show ?case
  proof (cases "generatesFromLocations r")
    case False
    then have "forRules B cfg (r # rs) st = forRules B cfg rs st"
      and "find generatesFromLocations (r # rs) = find generatesFromLocations rs"
      by (auto simp: generatesFromLocations_def)
    with Cons.IH [of st] show ?thesis by simp
  next
    case True
    have "stateAfter (forRules B cfg (r # rs) st) = stateAfter (forCities B cfg r cities st)"
    proof (cases "forCities B cfg r cities st")
      case (Inl e)
      with True show ?thesis by (simp add: generatesFromLocations_def)
    next
      case (Inr st1)
      with forCities_grows [of B cfg r cities st st1] have "allPresent st1"
        by (simp add: allPresent_def)
      then have "forRules B cfg rs st1 = Inr st1" by (rule forRules_present)
      with Inr True show ?thesis by (simp add: generatesFromLocations_def)
    qed
    with forCities_calls [of r st B cfg cities] True show ?thesis
      by (auto simp: callsFrom_def)
  qed
qed

text \<open>
  Claim C1, as amended.  All the calls of the AI generator made in one run of
  \<^verbatim>\<open>applyProgrammaticSEO\<close> carry one instruction string: the \<^verbatim>\<open>aiInstructions\<close> of
  the first rule of type dynamic that generates from locations, which is the rule that
  produces every page of the run (the rules after it find every slug registered).  The
  string that \<^verbatim>\<open>extractProgrammaticSEODetails\<close> picks is not passed to the generator.
\<close>

theorem applyProgrammaticSEO_instructions:
  "aiCalls (stateAfter (applyProgrammaticSEO B cfg st)) =
     aiCalls st @ newCalls st (stateAfter (applyProgrammaticSEO B cfg st)) \<and>
   (\<forall>call \<in> set (newCalls st (stateAfter (applyProgrammaticSEO B cfg st))).
      \<exists>r. find generatesFromLocations (detailRules (extractProgrammaticSEODetails cfg)) = Some r \<and>
          fst call = aiInstructions r)"
proof (cases "\<not> enableProgrammaticSEO (featureFlags cfg)
         \<or> \<not> (case seoConfigOf cfg of None \<Rightarrow> False | Some c \<Rightarrow> seoEnabled c)")
  case True
  then have "applyProgrammaticSEO B cfg st = Inr st" by (simp add: applyProgrammaticSEO_def)
  then show ?thesis by (simp add: newCalls_def)
next
  case False
  then have "applyProgrammaticSEO B cfg st =
      forRules B cfg (detailRules (extractProgrammaticSEODetails cfg)) st"
    by (simp add: applyProgrammaticSEO_def)
  with forRules_calls [of B cfg "detailRules (extractProgrammaticSEODetails cfg)" st]
  show ?thesis by (auto simp: newCalls_def)
qed

lemma twoRuleConfig_calls:
  "map fst (aiCalls (stateAfter (applyProgrammaticSEO stubBuiltins twoRuleConfig readyState))) =
     [Some ''B'', Some ''B'', Some ''B'', Some ''B'', Some ''B'', Some ''B'']"
  by (simp add: run_defs twoRuleConfig_def emptyState_def readyState_def stubBuiltins_def)

theorem applyProgrammaticSEO_instructions_witness:
  "fst ` set (newCalls readyState
               (stateAfter (applyProgrammaticSEO stubBuiltins twoRuleConfig readyState))) =
     {Some ''B''}"
proof -
  let ?new = "newCalls readyState
      (stateAfter (applyProgrammaticSEO stubBuiltins twoRuleConfig readyState))"
  have rule: "find generatesFromLocations (detailRules (extractProgrammaticSEODetails twoRuleConfig))
      = Some \<lparr>pattern = ''/:city/:service'', ruleType = Dynamic,
              generateFrom = Some Locations, aiInstructions = Some ''B''\<rparr>"
    by (simp add: extractProgrammaticSEODetails_def seoConfigOf_def twoRuleConfig_def
        generatesFromLocations_def)
  have "aiCalls (stateAfter (applyProgrammaticSEO stubBuiltins twoRuleConfig readyState)) \<noteq> []"
    using twoRuleConfig_calls by auto
  then have nonempty: "?new \<noteq> []"
    by (simp add: newCalls_def readyState_def emptyState_def)
  from applyProgrammaticSEO_instructions [of stubBuiltins twoRuleConfig readyState] rule
  have all: "\<forall>call \<in> set ?new. fst call = Some ''B''" by auto
  from nonempty obtain c where "c \<in> set ?new" by (cases ?new) auto
  with all show ?thesis by force
qed

text \<open>
  Claim C1 as stated fails.  In the two-rule configuration the first rule carrying
  instructions is the static rule, with instructions \<^verbatim>\<open>A\<close>; the six pages of the run
  are generated with the instructions \<^verbatim>\<open>B\<close> of the rule that produces them.
\<close>

theorem applyProgrammaticSEO_not_shared_instructions:
  "detailInstructions (extractProgrammaticSEODetails twoRuleConfig) = Some ''A'' \<and>
   map fst (aiCalls (stateAfter (applyProgrammaticSEO stubBuiltins twoRuleConfig readyState))) =
     [Some ''B'', Some ''B'', Some ''B'', Some ''B'', Some ''B'', Some ''B'']"
  by (simp add: run_defs twoRuleConfig_def emptyState_def readyState_def stubBuiltins_def)

section \<open>Properties of validation and resolution\<close>

lemma set_firstOccurrences [simp]: "set (firstOccurrences xs) = set xs"
  by (induction xs) auto

lemma firstOccurrences_filter: "filter P (firstOccurrences xs) = firstOccurrences (filter P xs)"
proof (induction xs)
  case Nil
  show ?case by simp
next
  case (Cons x xs)
  have swap: "filter P (filter (\<lambda>y. y \<noteq> x) (firstOccurrences xs)) =
        filter (\<lambda>y. y \<noteq> x) (filter P (firstOccurrences xs))"
    by (auto intro: filter_cong)
  show ?case
  proof (cases "P x")
    case True
    with swap Cons show ?thesis by simp
  next
    case False
    then have "x \<notin> set (firstOccurrences (filter P xs))" by simp
    then have "filter (\<lambda>y. y \<noteq> x) (firstOccurrences (filter P xs)) =
        firstOccurrences (filter P xs)"
      by (auto simp: filter_id_conv)
    with False swap Cons show ?thesis by simp
  qed
qed

lemma map_filter_drop:
  "f x = None \<Longrightarrow> List.map_filter f (filter (\<lambda>y. y \<noteq> x) xs) = List.map_filter f xs"
  by (induction xs) (auto split: option.splits)

lemma resolveRefs_strings:
  "resolveRefs B valid pool (map JStr ids) updated R =
     Inr (updated @ List.map_filter (lookupShared valid pool)
                     (firstOccurrences (filter (\<lambda>r. r \<notin> R) ids)))"
proof (induction ids arbitrary: updated R)
  case Nil
  show ?case by simp
next
  case (Cons r ids)
  show ?case
  proof (cases "lookupShared valid pool r")
    case None
    then have "resolveRefs B valid pool (map JStr (r # ids)) updated R =
        resolveRefs B valid pool (map JStr ids) updated R"
      by (auto simp: lookupShared_def split: option.splits if_splits)
    with None Cons.IH [of updated R] show ?thesis
      by (simp add: map_filter_drop)
  next
    case (Some p)
    show ?thesis
    proof (cases "r \<in> R")
      case True
      with Some have "resolveRefs B valid pool (map JStr (r # ids)) updated R =
          resolveRefs B valid pool (map JStr ids) updated R"
        by (auto simp: lookupShared_def split: option.splits if_splits)
      with True Cons.IH [of updated R] show ?thesis by simp
    next
      case False
      with Some have "resolveRefs B valid pool (map JStr (r # ids)) updated R =
          resolveRefs B valid pool (map JStr ids) (updated @ [p]) (insert r R)"
        by (auto simp: lookupShared_def split: option.splits if_splits)
      moreover have "filter (\<lambda>y. y \<noteq> r) (firstOccurrences (filter (\<lambda>r. r \<notin> R) ids)) =
          firstOccurrences (filter (\<lambda>x. x \<notin> insert r R) ids)"
        by (simp add: firstOccurrences_filter conj_commute)
      ultimately show ?thesis
        using False Some Cons.IH [of "updated @ [p]" "insert r R"]
        by simp
    qed
  qed
qed

lemma map_of_setProperty:
  "map_of (setProperty kvs k v) k' = (if k' = k then Some v else map_of kvs k')"
  by (induction kvs) auto


text \<open>
  Claim C5.  With the shared-sections flag on and a pool that is not empty, for a page
  whose references are strings and whose sections are an array,
  \<^verbatim>\<open>resolveSharedSections\<close> returns a page whose sections are the original sections,
  in their order, followed by the payloads of the references that resolve, each id once
  at its first occurrence, in the order of the reference list; an id that matches no
  shared section adds nothing and throws nothing.  The other properties of the page are
  those of the input.
\<close>

theorem resolveSharedSections_appends:
  assumes "enableSharedSections (featureFlags cfg)"
    and "seoConfigOf cfg = Some c" and "sharedSections c \<noteq> []"
    and "getProp page ''sharedSectionRefs'' = JArr (map JStr ids)"
    and "getProp page ''sections'' = JArr secs"
  shows "\<exists>page'. resolveSharedSections B cfg page = Inr page' \<and>
           getProp page' ''sections'' =
             JArr (secs @ resolvedOnce (isSection B) (sharedSections c) ids) \<and>
           (\<forall>k. k \<noteq> ''sections'' \<longrightarrow> getProp page' k = getProp page k)"
proof -
  from assms(4) obtain kvs where page: "page = JObj kvs" by (cases page) auto
  with assms show ?thesis
    by (simp add: resolveSharedSections_def sharedPool_def sectionsOrEmpty_def resolveRefs_strings
        resolvedOnce_def map_of_setProperty)
qed


lemma validateSections_valid:
  "\<forall>y \<in> set secs. parse B sectionSchema y \<noteq> None \<Longrightarrow> validateSections B secs i = Inr ()"
  by (induction secs arbitrary: i) (auto simp: validateSafely_def)

lemma validateSections_error:
  "validateSections B secs k = Inl e \<Longrightarrow>
     \<exists>i < length secs. parse B sectionSchema (secs ! i) = None \<and>
        (\<forall>j < i. parse B sectionSchema (secs ! j) \<noteq> None) \<and>
        e = ValidationError ''Validation failed'' (''INVALID_SECTION_'' @ digits (k + i))"
proof (induction secs arbitrary: k)
  case Nil
  then show ?case by simp
next
  case (Cons s secs)
  show ?case
  proof (cases "parse B sectionSchema s")
    case None
    with Cons.prems have "e = ValidationError ''Validation failed'' (''INVALID_SECTION_'' @ digits k)"
      by (simp add: validateSafely_def)
    with None show ?thesis by (intro exI [of _ 0]) simp
  next
    case (Some w)
    with Cons.prems have "validateSections B secs (Suc k) = Inl e"
      by (simp add: validateSafely_def)
    from Cons.IH [OF this] obtain i where i: "i < length secs"
      "parse B sectionSchema (secs ! i) = None"
      "\<forall>j < i. parse B sectionSchema (secs ! j) \<noteq> None"
      "e = ValidationError ''Validation failed'' (''INVALID_SECTION_'' @ digits (Suc k + i))"
      by blast
    have "\<forall>j < Suc i. parse B sectionSchema ((s # secs) ! j) \<noteq> None"
    proof (intro allI impI)
      fix j assume "j < Suc i"
      with i(3) Some show "parse B sectionSchema ((s # secs) ! j) \<noteq> None"
        by (cases j) auto
    qed
    with i show ?thesis by (intro exI [of _ "Suc i"]) simp
  qed
qed

lemma pageSchema_keys: "distinct (map fst
   [(''id'', a1), (''type'', a2), (''slug'', a3), (''status'', a4), (''priority'', a5),
    (''meta'', a6), (''sections'', a7), (''navigation'', a8), (''locale'', a9),
    (''clusterRefs'', a10), (''sharedSectionRefs'', a11), (''version'', a12),
    (''lastModified'', a13), (''lastModifiedBy'', a14), (''publishedAt'', a15),
    (''publishedBy'', a16)])"
  by simp

lemma validated_page:
  assumes "parse B pageSchema v = Some p"
  shows "\<exists>secs ids. getProp p ''sections'' = JArr secs \<and>
           (\<forall>y \<in> set secs. parse B sectionSchema y = Some y) \<and>
           getProp p ''sharedSectionRefs'' = JArr (map JStr ids)"
proof -
  note p = assms [unfolded pageSchema_def]
  have "parse B (ZArray sectionSchema) (getProp v ''sections'') = Some (getProp p ''sections'')"
    by (rule parse_ZObject_field [OF p pageSchema_keys]) simp
  from parse_ZArray_elements [OF this idempotent_sectionSchema]
  obtain secs where secs: "getProp p ''sections'' = JArr secs"
    "\<forall>y \<in> set secs. parse B sectionSchema y = Some y" by blast
  have "parse B (ZDefault (ZArray (ZString [])) (JArr [])) (getProp v ''sharedSectionRefs'') =
      Some (getProp p ''sharedSectionRefs'')"
    by (rule parse_ZObject_field [OF p pageSchema_keys]) simp
  then have "\<exists>ids. getProp p ''sharedSectionRefs'' = JArr (map JStr ids)"
    by (auto dest: parse_strings simp del: parse.simps(8) split: if_splits)
  with secs show ?thesis by blast
qed

lemma promo_valid: "isSection stubBuiltins promoSection"
  by (simp add: isSection_def promoSection_def sectionSchema_def fieldSchema_def sectionTypeEnum_def
      objectOutput_def stubBuiltins_def)

lemma draft_parses: "parse stubBuiltins pageSchema (draftPage [JStr ''promo'']) \<noteq> None"
  by (simp add: draftPage_def heroSection_def pageSchema_def pageTypeEnum_def sectionSchema_def
      sectionTypeEnum_def objectOutput_def stubBuiltins_def)

theorem resolveSharedSections_appends_witness:
  "\<exists>page'. resolveSharedSections stubBuiltins poolConfig
              (draftPage [JStr ''promo'', JStr ''missing'', JStr ''promo'']) = Inr page' \<and>
     getProp page' ''sections'' = JArr [heroSection, promoSection]"
proof -
  have once: "resolvedOnce (isSection stubBuiltins)
      [\<lparr>sharedId = ''promo'', sharedPayload = promoSection\<rparr>] [''promo'', ''missing'', ''promo'']
      = [promoSection]"
    using promo_valid by (simp add: resolvedOnce_def lookupShared_def)
  have "\<exists>page'. resolveSharedSections stubBuiltins poolConfig
              (draftPage (map JStr [''promo'', ''missing'', ''promo''])) = Inr page' \<and>
      getProp page' ''sections'' = JArr ([heroSection] @ resolvedOnce (isSection stubBuiltins)
        (sharedSections \<lparr>seoEnabled = True, routeRules = [], localization = True,
            sharedSections = [\<lparr>sharedId = ''promo'', sharedPayload = promoSection\<rparr>]\<rparr>)
        [''promo'', ''missing'', ''promo'']) \<and>
      (\<forall>k. k \<noteq> ''sections'' \<longrightarrow> getProp page' k =
          getProp (draftPage (map JStr [''promo'', ''missing'', ''promo''])) k)"
    by (rule resolveSharedSections_appends)
       (simp_all add: poolConfig_def seoConfigOf_def draftPage_def)
  with once show ?thesis by auto
qed



lemma resolve_validated:
  assumes "parse B pageSchema v = Some p"
  shows "\<exists>p'. resolveSharedSections B cfg p = Inr p'"
proof -
  from assms obtain kvs where p: "p = JObj kvs"
    unfolding pageSchema_def using parse_ZObject_object by blast
  from validated_page [OF assms] obtain secs ids where
    "getProp p ''sections'' = JArr secs" "getProp p ''sharedSectionRefs'' = JArr (map JStr ids)"
    by blast
  with p show ?thesis
    by (simp add: resolveSharedSections_def sectionsOrEmpty_def resolveRefs_strings Let_def)
qed

text \<open>
  Claim C4.  An input that fails \<^verbatim>\<open>pageSchema\<close> makes \<^verbatim>\<open>validatePage\<close> throw
  \<^verbatim>\<open>INVALID_PAGE_STRUCTURE\<close>, so no section error is raised for it; and when the
  per-section step fails, it fails at the first section that does not parse, with the
  code \<^verbatim>\<open>INVALID_SECTION_\<close> followed by the index of that section.
\<close>

theorem validatePage_gate:
  "(parse B pageSchema page = None \<longrightarrow>
      validatePage B cfg page resolveShared =
        Inl (ValidationError ''Validation failed'' ''INVALID_PAGE_STRUCTURE'')) \<and>
   (validateSections B secs 0 = Inl e \<longrightarrow>
      (\<exists>i < length secs. parse B sectionSchema (secs ! i) = None \<and>
          (\<forall>j < i. parse B sectionSchema (secs ! j) \<noteq> None) \<and>
          e = ValidationError ''Validation failed'' (''INVALID_SECTION_'' @ digits i)))"
  using validateSections_error [of B secs 0 e]
  by (auto simp: validatePage_def validateSafely_def)

theorem validatePage_gate_witness:
  "validatePage stubBuiltins poolConfig (JObj [(''id'', JStr ''p-1'')]) True =
     Inl (ValidationError ''Validation failed'' ''INVALID_PAGE_STRUCTURE'') \<and>
   validateSections stubBuiltins [heroSection, JNull] 0 =
     Inl (ValidationError ''Validation failed'' ''INVALID_SECTION_1'')"
proof -
  have fails: "parse stubBuiltins pageSchema (JObj [(''id'', JStr ''p-1'')]) = None"
    by (simp add: pageSchema_def pageTypeEnum_def)
  have hero: "parse stubBuiltins sectionSchema heroSection \<noteq> None"
    by (simp add: heroSection_def sectionSchema_def sectionTypeEnum_def objectOutput_def)
  then obtain e where e: "validateSections stubBuiltins [heroSection, JNull] 0 = Inl e"
    by (auto simp: validateSafely_def sectionSchema_def)
  from validatePage_gate [of stubBuiltins "JObj [(''id'', JStr ''p-1'')]" poolConfig True
      "[heroSection, JNull]" e] e
  have "\<exists>i < length [heroSection, JNull].
      parse stubBuiltins sectionSchema ([heroSection, JNull] ! i) = None \<and>
      (\<forall>j < i. parse stubBuiltins sectionSchema ([heroSection, JNull] ! j) \<noteq> None) \<and>
      e = ValidationError ''Validation failed'' (''INVALID_SECTION_'' @ digits i)"
    by blast
  then obtain i where i: "i < length [heroSection, JNull]"
    "parse stubBuiltins sectionSchema ([heroSection, JNull] ! i) = None"
    "e = ValidationError ''Validation failed'' (''INVALID_SECTION_'' @ digits i)"
    by blast
  from i(1,2) hero have "i = 1" by (cases i) auto
  with i(3) e fails validatePage_gate [of stubBuiltins "JObj [(''id'', JStr ''p-1'')]" poolConfig True]
  show ?thesis by (simp add: digits.simps)
qed

text \<open>
  Claim C9.  For an input that passes \<^verbatim>\<open>pageSchema\<close>, the per-section step succeeds
  on the sections of the validated page: each was produced by \<^verbatim>\<open>sectionSchema\<close>, and
  parsing is idempotent.  So \<^verbatim>\<open>validatePage\<close> never throws an
  \<^verbatim>\<open>INVALID_SECTION\<close> error: the only error it throws is
  \<^verbatim>\<open>INVALID_PAGE_STRUCTURE\<close>.
\<close>

theorem validatePage_sections_valid:
  "(parse B pageSchema page = Some p \<longrightarrow>
      (\<exists>secs. getProp p ''sections'' = JArr secs \<and> validateSections B secs 0 = Inr ())) \<and>
   (validatePage B cfg page resolveShared = Inl e \<longrightarrow>
      e = ValidationError ''Validation failed'' ''INVALID_PAGE_STRUCTURE'')"
proof (cases "parse B pageSchema page")
  case None
  then show ?thesis by (simp add: validatePage_def validateSafely_def)
next
  case (Some q)
  from validated_page [OF Some] obtain secs where secs: "getProp q ''sections'' = JArr secs"
    "\<forall>y \<in> set secs. parse B sectionSchema y = Some y"
    by blast
  then have ok: "validateSections B secs 0 = Inr ()"
    by (intro validateSections_valid) simp
  from resolve_validated [OF Some] obtain q' where "resolveSharedSections B cfg q = Inr q'"
    by blast
  with Some secs(1) ok show ?thesis
    by (auto simp: validatePage_def validateSafely_def)
qed

theorem validatePage_sections_valid_witness:
  "\<exists>p secs. parse stubBuiltins pageSchema (draftPage [JStr ''promo'']) = Some p \<and>
     getProp p ''sections'' = JArr secs \<and> validateSections stubBuiltins secs 0 = Inr ()"
proof -
  from draft_parses obtain p where
    "parse stubBuiltins pageSchema (draftPage [JStr ''promo'']) = Some p" by auto
  with validatePage_sections_valid [of stubBuiltins "draftPage [JStr ''promo'']" p]
  show ?thesis by auto
qed


section \<open>Properties of the configuration schema\<close>

lemma parse_flag:
  assumes "parse B featureFlagsSchema ff = Some ff'"
    and "(k, ZDefault ZBoolean (JBool False)) \<in> set
           (case featureFlagsSchema of ZObject uk shape \<Rightarrow> shape | _ \<Rightarrow> [])"
  shows "truthy (getProp ff' k) \<longleftrightarrow> getProp ff k = JBool True"
proof -
  from assms(2) have mem: "(k, ZDefault ZBoolean (JBool False)) \<in> set
      (case featureFlagsSchema of ZObject uk shape \<Rightarrow> shape | _ \<Rightarrow> [])" .
  have "parse B (ZDefault ZBoolean (JBool False)) (getProp ff k) = Some (getProp ff' k)"
    using assms(1) mem unfolding featureFlagsSchema_def
    by (intro parse_ZObject_field [where uk = Strict]) (assumption, simp, simp)
  then show ?thesis
    by (cases "getProp ff k"; cases "getProp ff' k") (auto split: if_splits)
qed

lemma parse_three:
  "parse B (ZObject Strip [(k1, s1), (k2, s2), (k3, s3)]) (JObj kvs) =
     (case parse B s1 (getProp (JObj kvs) k1) of
        None \<Rightarrow> None
      | Some a \<Rightarrow>
          (case parse B s2 (getProp (JObj kvs) k2) of
             None \<Rightarrow> None
           | Some b \<Rightarrow>
               (case parse B s3 (getProp (JObj kvs) k3) of
                  None \<Rightarrow> None
                | Some c \<Rightarrow> Some (JObj (objectOutput kvs [(k1, a), (k2, b), (k3, c)])))))"
  by (simp split: option.splits)

text \<open>
  Claim C8.  For an input with \<^verbatim>\<open>advancedConfig\<close> present, parsing with
  \<^verbatim>\<open>appConfigSchema\<close> succeeds exactly when the three properties parse with their
  schemas and at least one of \<^verbatim>\<open>featureFlags.enableAdvancedSEO\<close> and
  \<^verbatim>\<open>featureFlags.enableAIContent\<close> is true: with both false (or absent, which defaults
  to false) it fails, with either true and the other properties valid it succeeds.
\<close>

theorem appConfig_requires_flag:
  assumes present: "getProp v ''advancedConfig'' \<noteq> JUndefined"
  shows "parse B appConfigSchema v \<noteq> None \<longleftrightarrow>
           parse B featureFlagsSchema (getProp v ''featureFlags'') \<noteq> None \<and>
           parse B (ZOptional themeSchema) (getProp v ''theme'') \<noteq> None \<and>
           parse B advancedConfigSchema (getProp v ''advancedConfig'') \<noteq> None \<and>
           (getProp (getProp v ''featureFlags'') ''enableAdvancedSEO'' = JBool True \<or>
            getProp (getProp v ''featureFlags'') ''enableAIContent'' = JBool True)"
proof -
  from present obtain kvs where v: "v = JObj kvs" by (cases v) auto
  let ?ff = "getProp v ''featureFlags''"
  show ?thesis
  proof (cases "parse B featureFlagsSchema ?ff")
    case None
    with v show ?thesis
      by (simp add: appConfigSchema_def appConfigObject_def parse_three del: parse.simps(11))
  next
    case (Some a)
    note flags = Some
    show ?thesis
    proof (cases "parse B (ZOptional themeSchema) (getProp v ''theme'')")
      case None
      with v flags show ?thesis
        by (simp add: appConfigSchema_def appConfigObject_def parse_three del: parse.simps(11))
    next
      case (Some b)
      note theme = Some
      show ?thesis
      proof (cases "parse B advancedConfigSchema (getProp v ''advancedConfig'')")
        case None
        with v flags theme present show ?thesis
          by (simp add: appConfigSchema_def appConfigObject_def parse_three
              del: parse.simps(11))
      next
        case (Some c)
        from Some obtain ckvs where c: "c = JObj ckvs"
          unfolding advancedConfigSchema_def using parse_ZObject_object by blast
        let ?w = "JObj (objectOutput kvs [(''featureFlags'', a), (''theme'', b), (''advancedConfig'', c)])"
        from v flags theme Some present have base: "parse B appConfigObject v = Some ?w"
          by (simp add: appConfigObject_def parse_three del: parse.simps(11))
        have wa: "getProp ?w ''advancedConfig'' = c"
          by (rule getProp_objectOutput) simp_all
        have wf: "getProp ?w ''featureFlags'' = a"
          by (rule getProp_objectOutput) simp_all
        have seo: "truthy (getProp a ''enableAdvancedSEO'') \<longleftrightarrow>
            getProp ?ff ''enableAdvancedSEO'' = JBool True"
          by (rule parse_flag [OF flags]) (simp add: featureFlagsSchema_def)
        have ai: "truthy (getProp a ''enableAIContent'') \<longleftrightarrow>
            getProp ?ff ''enableAIContent'' = JBool True"
          by (rule parse_flag [OF flags]) (simp add: featureFlagsSchema_def)
        from wa wf c seo ai have "appConfigRefinement ?w \<longleftrightarrow>
            (getProp ?ff ''enableAdvancedSEO'' = JBool True \<or>
             getProp ?ff ''enableAIContent'' = JBool True)"
          by (simp add: appConfigRefinement_def)
        with base flags theme Some show ?thesis
          by (simp add: appConfigSchema_def)
      qed
    qed
  qed
qed


theorem appConfig_requires_flag_witness:
  "parse stubBuiltins appConfigSchema (advancedOnly True) \<noteq> None \<and>
   parse stubBuiltins appConfigSchema (advancedOnly False) = None"
proof -
  have present: "getProp (advancedOnly b) ''advancedConfig'' \<noteq> JUndefined" for b
    by (simp add: advancedOnly_def)
  have flags: "parse stubBuiltins featureFlagsSchema (getProp (advancedOnly b) ''featureFlags'') \<noteq> None"
    for b
    by (simp add: advancedOnly_def featureFlagsSchema_def)
  have theme: "parse stubBuiltins (ZOptional themeSchema) (getProp (advancedOnly b) ''theme'') \<noteq> None"
    for b
    by (simp add: advancedOnly_def)
  have advanced: "parse stubBuiltins advancedConfigSchema
      (getProp (advancedOnly b) ''advancedConfig'') \<noteq> None" for b
    by (simp add: advancedOnly_def advancedConfigSchema_def)
  have seo: "getProp (getProp (advancedOnly b) ''featureFlags'') ''enableAdvancedSEO'' = JBool b"
    and ai: "getProp (getProp (advancedOnly b) ''featureFlags'') ''enableAIContent'' = JUndefined"
    for b
    by (simp_all add: advancedOnly_def)
  from appConfig_requires_flag [OF present, of stubBuiltins True]
    appConfig_requires_flag [OF present, of stubBuiltins False]
    flags theme advanced seo ai
  show ?thesis by simp
qed

section \<open>Properties of object identity\<close>

lemma extends_refl: "extends n h h"
  by (simp add: extends_def)

lemma extends_trans: "extends n h h1 \<Longrightarrow> extends n h1 h2 \<Longrightarrow> extends n h h2"
  by (auto simp: extends_def)

lemma extends_length: "extends n h h' \<Longrightarrow> length h \<le> length h'"
  by (auto simp: extends_def)

lemma extends_old: "extends n h h' \<Longrightarrow> a < length h \<Longrightarrow> h' ! a = h ! a"
  by (auto simp: extends_def nth_append)

lemma extends_alloc:
  "\<forall>v \<in> set (children obj). freshFrom n v \<Longrightarrow> alloc obj h = (r, h') \<Longrightarrow>
     extends n h h' \<and> r = HRef (length h)"
  by (auto simp: alloc_def extends_def)

lemma freshFrom_mono: "freshFrom n v \<Longrightarrow> m \<le> n \<Longrightarrow> freshFrom m v"
  by (auto simp: freshFrom_def)

lemma closedFrom_extends:
  assumes "closedFrom n h" and "extends n h h'"
  shows "closedFrom n h'"
proof -
  from assms(2) obtain new where h': "h' = h @ new"
    and new: "\<forall>c \<in> set new. \<forall>v \<in> set (children c). freshFrom n v"
    by (auto simp: extends_def)
  show ?thesis
    unfolding closedFrom_def
  proof (intro allI impI)
    fix a
    assume a: "n \<le> a \<and> a < length h'"
    show "\<forall>v \<in> set (children (h' ! a)). freshFrom n v"
    proof (cases "a < length h")
      case True
      with assms(1) a h' show ?thesis by (simp add: closedFrom_def nth_append)
    next
      case False
      with a h' have "h' ! a \<in> set new" by (auto simp: nth_append intro!: nth_mem)
      with new show ?thesis by blast
    qed
  qed
qed

lemma reaches_fresh:
  assumes "closedFrom n h" and "freshFrom n v" and "reaches h v a"
  shows "n \<le> a"
  using assms(3) assms(2)
proof (induction rule: reaches.induct)
  case (root a)
  then show ?case by (simp add: freshFrom_def)
next
  case (step v a b)
  then have "n \<le> a" by simp
  with step.hyps assms(1) have "freshFrom n (HRef b)" by (auto simp: closedFrom_def)
  then show ?case by (simp add: freshFrom_def)
qed

lemma allocJson_fresh:
  "allocJson j h = (v, h') \<Longrightarrow> n \<le> length h \<Longrightarrow> extends n h h' \<and> freshFrom n v"
  "allocList xs h = (vs, h') \<Longrightarrow> n \<le> length h \<Longrightarrow>
     extends n h h' \<and> (\<forall>v \<in> set vs. freshFrom n v)"
  "allocProps kvs h = (ps, h') \<Longrightarrow> n \<le> length h \<Longrightarrow>
     extends n h h' \<and> (\<forall>v \<in> set (map snd ps). freshFrom n v)"
proof (induction j h and xs h and kvs h arbitrary: v h' and vs h' and ps h'
    rule: allocJson_allocList_allocProps.induct)
  case (6 xs h)
  from "6.prems" obtain ws h1 where 1: "allocList xs h = (ws, h1)"
    and 2: "alloc (HArray ws) h1 = (v, h')"
    by (auto split: prod.splits)
  from "6.IH" [OF 1 "6.prems"(2)] have e: "extends n h h1" and f: "\<forall>v \<in> set ws. freshFrom n v"
    by auto
  from f 2 have "extends n h1 h'" "v = HRef (length h1)"
    using extends_alloc [of "HArray ws" n h1 v h'] by auto
  with e extends_length [OF e] "6.prems"(2) show ?case
    by (auto intro: extends_trans simp: freshFrom_def)
next
  case (7 kvs h)
  from "7.prems" obtain qs h1 where 1: "allocProps kvs h = (qs, h1)"
    and 2: "alloc (HObject qs) h1 = (v, h')"
    by (auto split: prod.splits)
  from "7.IH" [OF 1 "7.prems"(2)] have e: "extends n h h1"
    and f: "\<forall>v \<in> set (map snd qs). freshFrom n v"
    by auto
  from f 2 have "extends n h1 h'" "v = HRef (length h1)"
    using extends_alloc [of "HObject qs" n h1 v h'] by auto
  with e extends_length [OF e] "7.prems"(2) show ?case
    by (auto intro: extends_trans simp: freshFrom_def)
next
  case (9 x xs h)
  from "9.prems" obtain w h1 ws where 1: "allocJson x h = (w, h1)"
    and 2: "allocList xs h1 = (ws, h')" and vs: "vs = w # ws"
    by (auto split: prod.splits)
  from "9.IH"(1) [OF 1 "9.prems"(2)] have e: "extends n h h1" and f: "freshFrom n w" by auto
  from extends_length [OF e] "9.prems"(2) have "n \<le> length h1" by simp
  from "9.IH"(2) [OF 1 [symmetric] 2 this] e f vs show ?case
    by (auto intro: extends_trans)
next
  case (11 k x kvs h)
  from "11.prems" obtain w h1 qs where 1: "allocJson x h = (w, h1)"
    and 2: "allocProps kvs h1 = (qs, h')" and ps: "ps = (k, w) # qs"
    by (auto split: prod.splits)
  from "11.IH"(1) [OF 1 "11.prems"(2)] have e: "extends n h h1" and f: "freshFrom n w" by auto
  from extends_length [OF e] "11.prems"(2) have "n \<le> length h1" by simp
  from "11.IH"(2) [OF 1 [symmetric] 2 this] e f ps show ?case
    by (auto intro: extends_trans)
qed (auto simp: extends_refl freshFrom_def)

lemma setProperty_values:
  "(k', x) \<in> set (setProperty kvs k v) \<Longrightarrow> x = v \<or> (\<exists>k''. (k'', x) \<in> set kvs)"
  by (induction kvs) (auto split: if_splits)

lemma mergeProperties_values:
  "(k', x) \<in> set (mergeProperties a b) \<Longrightarrow> (\<exists>k. (k, x) \<in> set a) \<or> (\<exists>k. (k, x) \<in> set b)"
  unfolding mergeProperties_def
proof (induction b arbitrary: a)
  case Nil
  then show ?case by auto
next
  case (Cons p b)
  obtain k v where p: "p = (k, v)" by (cases p)
  with Cons.prems have "(k', x) \<in> set (foldl (\<lambda>acc (k, v). setProperty acc k v) (setProperty a k v) b)"
    by simp
  from Cons.IH [OF this] show ?case
  proof
    assume "\<exists>k''. (k'', x) \<in> set (setProperty a k v)"
    then obtain k'' where "(k'', x) \<in> set (setProperty a k v)" by blast
    from setProperty_values [OF this] p show ?thesis by auto
  next
    assume "\<exists>k''. (k'', x) \<in> set b"
    then show ?thesis by auto
  qed
qed

lemma spreadProperties_fresh:
  assumes "closedFrom n h" and "freshFrom n v"
  shows "\<forall>(k, x) \<in> set (spreadProperties h v). freshFrom n x"
proof (cases "deref h v")
  case None
  then show ?thesis
    by (cases v) (auto simp: spreadProperties_def freshFrom_def)
next
  case (Some c)
  then obtain a where v: "v = HRef a" "a < length h" "h ! a = c"
    by (cases v) (auto simp: deref_def split: if_splits)
  with assms have "\<forall>x \<in> set (children c). freshFrom n x"
    by (auto simp: closedFrom_def freshFrom_def)
  with Some v show ?thesis
    by (cases c) (auto simp: spreadProperties_def)
qed

lemma spreadElements_fresh:
  assumes "closedFrom n h" and "freshFrom n v" and "spreadElements h v = Some xs"
  shows "\<forall>x \<in> set xs. freshFrom n x"
proof (cases "deref h v")
  case None
  with assms(3) show ?thesis
    by (cases v) (auto simp: spreadElements_def freshFrom_def)
next
  case (Some c)
  then obtain a where v: "v = HRef a" "a < length h" "h ! a = c"
    by (cases v) (auto simp: deref_def split: if_splits)
  with assms have "\<forall>x \<in> set (children c). freshFrom n x"
    by (auto simp: closedFrom_def freshFrom_def)
  with Some v assms(3) show ?thesis
    by (cases c) (auto simp: spreadElements_def)
qed

lemma replaceVariables_frame:
  assumes "replaceVariables B t vars s h = Inr (s', h')"
  shows "extends 0 h h'"
    and "freshFrom n s \<Longrightarrow> n \<le> length h \<Longrightarrow> freshFrom n s'"
    and "template_variables t \<noteq> [] \<Longrightarrow> extends (length h) h h' \<and> freshFrom (length h) s'"
  using assms allocJson_fresh(1) [of _ h s' h']
  by (auto simp: replaceVariables_def extends_refl split: if_splits option.splits sum.splits)

lemma generateAIContent_frame:
  assumes "generateAIContent B cfg t vars s h st = Inr (s', h', st')"
    and "closedFrom n h" and "freshFrom n s" and "n \<le> length h"
  shows "extends n h h' \<and> freshFrom n s'"
proof (cases "truthyStr (aiPrompt t)")
  case False
  with assms show ?thesis by (simp add: generateAIContent_def extends_refl)
next
  case True
  with assms(1) obtain ai st1 where
    "generateAIContentSections B cfg (aiPrompt t) vars st = Inr (ai, st1)"
    by (auto simp: generateAIContent_def split: sum.splits)
  obtain aiRef h1 where a: "allocJson (JArr ai) h = (aiRef, h1)" by (cases "allocJson (JArr ai) h")
  from allocJson_fresh(1) [OF a assms(4)] have e1: "extends n h h1" and f1: "freshFrom n aiRef"
    by auto
  from closedFrom_extends [OF assms(2) e1] have c1: "closedFrom n h1" .
  show ?thesis
  proof (cases "spreadElements h1 aiRef")
    case None
    with assms True \<open>generateAIContentSections B cfg (aiPrompt t) vars st = Inr (ai, st1)\<close> a e1
    show ?thesis by (simp add: generateAIContent_def)
  next
    case (Some xs)
    show ?thesis
    proof (cases xs)
      case Nil
      with Some assms True \<open>generateAIContentSections B cfg (aiPrompt t) vars st = Inr (ai, st1)\<close> a e1
      show ?thesis by (simp add: generateAIContent_def)
    next
      case (Cons first others)
      let ?cell = "HObject (mergeProperties (spreadProperties h1 s) (spreadProperties h1 first))"
      from spreadElements_fresh [OF c1 f1 Some] Cons have ff: "freshFrom n first" by simp
      have "\<forall>v \<in> set (children ?cell). freshFrom n v"
      proof
        fix v assume "v \<in> set (children ?cell)"
        then obtain k where "(k, v) \<in> set (mergeProperties (spreadProperties h1 s)
            (spreadProperties h1 first))" by auto
        from mergeProperties_values [OF this]
          spreadProperties_fresh [OF c1 ff] spreadProperties_fresh [OF c1 assms(3)]
        show "freshFrom n v" by auto
      qed
      from extends_alloc [OF this, of h1] have "extends n h1 (h1 @ [?cell])"
        by (simp add: alloc_def)
      moreover from Cons Some assms(1) True
        \<open>generateAIContentSections B cfg (aiPrompt t) vars st = Inr (ai, st1)\<close> a
      have "s' = HRef (length h1)" "h' = h1 @ [?cell]"
        by (simp_all add: generateAIContent_def alloc_def)
      ultimately show ?thesis
        using e1 extends_length [OF e1] assms(4)
        by (auto intro: extends_trans simp: freshFrom_def)
    qed
  qed
qed

lemma generateAIContent_result:
  assumes "generateAIContent B cfg t vars s h st = Inr (s', h', st')"
  shows "s' = s \<or> (\<exists>a. s' = HRef a \<and> length h \<le> a)"
proof (cases "truthyStr (aiPrompt t)")
  case False
  with assms show ?thesis by (simp add: generateAIContent_def)
next
  case True
  with assms obtain ai st1 where g: "generateAIContentSections B cfg (aiPrompt t) vars st = Inr (ai, st1)"
    by (auto simp: generateAIContent_def split: sum.splits)
  obtain aiRef h1 where a: "allocJson (JArr ai) h = (aiRef, h1)" by (cases "allocJson (JArr ai) h")
  from allocJson_fresh(1) [OF a, of 0] have "length h \<le> length h1"
    by (auto dest: extends_length)
  with assms True g a show ?thesis
    by (auto simp: generateAIContent_def alloc_def split: option.splits list.splits)
qed

lemma closedFrom_zero: "closedFrom 0 h"
  by (simp add: closedFrom_def freshFrom_def)

text \<open>
  Claim C2, as amended.  For a registered template, \<^verbatim>\<open>instantiate\<close> leaves the
  template registry and every object of the store as they were, so the template is
  unchanged, and the section it returns is not an object that existed before the call.
  When the template declares at least one variable, nothing that existed before the
  call is reachable from the returned section: it is an independent deep copy.
\<close>

theorem instantiate_frame:
  assumes "templateRegistry hs tid = Some t"
    and "templateUtils_instantiate B cfg tid variables hs = Inr (section, hs')"
  shows "templateRegistry hs' = templateRegistry hs \<and>
         take (length (heap hs)) (heap hs') = heap hs \<and>
         freshFrom (length (heap hs)) section \<and>
         (template_variables t \<noteq> [] \<longrightarrow>
            (\<forall>a. reaches (heap hs') section a \<longrightarrow> length (heap hs) < a))"
proof -
  let ?h = "heap hs"
  let ?h1 = "?h @ [HObject (spreadProperties ?h (template_section t))]"
  from assms obtain s1 h2 s2 h3 st' where
    r: "replaceVariables B t variables (HRef (length ?h)) ?h1 = Inr (s1, h2)"
    and g: "generateAIContent B cfg t variables s1 h2 (moduleState hs) = Inr (s2, h3, st')"
    and res: "section = s2" "hs' = hs\<lparr>heap := h3, moduleState := st'\<rparr>"
    by (auto simp: templateUtils_instantiate_def registryGet_present alloc_def
        split: sum.splits prod.splits)
  have e1: "extends 0 ?h ?h1" by (simp add: extends_def freshFrom_def)
  from replaceVariables_frame(1) [OF r] have e2: "extends 0 ?h1 h2" .
  from generateAIContent_frame [OF g closedFrom_zero, of ] have e3: "extends 0 h2 h3"
    by (simp add: freshFrom_def)
  from e1 e2 e3 have e: "extends 0 ?h h3" by (blast intro: extends_trans)
  have f1: "freshFrom (length ?h) s1"
    by (rule replaceVariables_frame(2) [OF r]) (simp_all add: freshFrom_def)
  from extends_length [OF e2] have "length ?h \<le> length h2" by simp
  with generateAIContent_result [OF g] f1 have f2: "freshFrom (length ?h) s2"
    by (auto simp: freshFrom_def)
  have deep: "length ?h < a" if vars: "template_variables t \<noteq> []" and reach: "reaches h3 s2 a" for a
  proof -
    let ?n = "length ?h1"
    have c1: "closedFrom ?n ?h1" by (auto simp: closedFrom_def)
    from replaceVariables_frame(3) [OF r vars] have x2: "extends ?n ?h1 h2" and y2: "freshFrom ?n s1"
      by auto
    from closedFrom_extends [OF c1 x2] have c2: "closedFrom ?n h2" .
    from generateAIContent_frame [OF g c2 y2] extends_length [OF x2]
    have x3: "extends ?n h2 h3" and y3: "freshFrom ?n s2" by auto
    from closedFrom_extends [OF c2 x3] have "closedFrom ?n h3" .
    from reaches_fresh [OF this y3 reach] show ?thesis by simp
  qed
  from e res f2 deep show ?thesis
    by (auto simp: extends_def)
qed

lemma resolveRefs_appended:
  "resolveRefs B valid pool refs updated R = Inr out \<Longrightarrow>
     \<exists>appended. out = updated @ appended \<and> set appended \<subseteq> sharedPayload ` set pool"
proof (induction refs arbitrary: updated R)
  case Nil
  then show ?case by simp
next
  case (Cons r refs)
  from Cons.prems obtain s where r: "r = JStr s" by (cases r) (auto split: option.splits)
  show ?case
  proof (cases "find (\<lambda>e. sharedId e = s) pool")
    case None
    with Cons.prems r have "resolveRefs B valid pool refs updated R = Inr out" by simp
    from Cons.IH [OF this] show ?thesis .
  next
    case (Some e)
    then have mem: "sharedPayload e \<in> sharedPayload ` set pool"
      by (auto simp: find_Some_iff)
    show ?thesis
    proof (cases "valid (sharedPayload e) \<and> s \<notin> R")
      case False
      with Cons.prems r Some have "resolveRefs B valid pool refs updated R = Inr out"
        by (auto split: if_splits)
      from Cons.IH [OF this] show ?thesis .
    next
      case True
      with Cons.prems r Some
      have "resolveRefs B valid pool refs (updated @ [sharedPayload e]) (insert s R) = Inr out"
        by simp
      from Cons.IH [OF this] mem show ?thesis by auto
    qed
  qed
qed

text \<open>
  Claim C6, as amended.  \<^verbatim>\<open>resolveSharedSections\<close> changes no object that existed
  before the call: the input page and its sections array are as they were.  With the
  flag off or an empty pool it returns the input page itself.  Otherwise it returns a new
  page object whose sections are a new array: the elements of the input's array, then
  elements that are each a payload reference of the pool, the shared section itself.
\<close>

theorem resolveSharedSections_heap_frame:
  assumes "resolveSharedSections_heap B cfg h page = Inr (page', h')"
  shows "take (length h) h' = h \<and>
         (\<not> enableSharedSections (featureFlags cfg) \<or> sharedPool cfg = [] \<longrightarrow>
            page' = page \<and> h' = h) \<and>
         (enableSharedSections (featureFlags cfg) \<and> sharedPool cfg \<noteq> [] \<longrightarrow>
            page' = HRef (Suc (length h)) \<and>
            getField h' page' ''sections'' = HRef (length h) \<and>
            (\<exists>existing appended.
               existingSections h page = Some existing \<and>
               h' ! length h = HArray (existing @ appended) \<and>
               set appended \<subseteq> sharedPayload ` set (sharedPool cfg)))"
proof (cases "enableSharedSections (featureFlags cfg) \<and> sharedPool cfg \<noteq> []")
  case False
  with assms show ?thesis
    by (auto simp: resolveSharedSections_heap_def Let_def split: if_splits)
next
  case True
  with assms obtain refs existing updated where
    ex: "existingSections h page = Some existing"
    and loop: "resolveRefs B (isSectionRef B h) (sharedPool cfg) (map (view h) refs) existing {}
                 = Inr updated"
    and page': "page' = HRef (Suc (length h))"
    and h': "h' = h @ [HArray updated,
        HObject (setProperty (spreadProperties h page) ''sections'' (HRef (length h)))]"
    by (auto simp: resolveSharedSections_heap_def Let_def alloc_def
        split: if_splits option.splits hobj.splits sum.splits)
  from resolveRefs_appended [OF loop] obtain appended where
    "updated = existing @ appended" "set appended \<subseteq> sharedPayload ` set (sharedPool cfg)"
    by blast
  moreover from page' h' have "getField h' page' ''sections'' = HRef (length h)"
    by (simp add: getField_def deref_def nth_append map_of_setProperty)
  ultimately show ?thesis
    using True ex page' h' by (simp add: nth_append)
qed

lemma promo_ref_valid: "isSectionRef stubBuiltins sectionHeap (HRef 1)"
  by (simp add: isSectionRef_def snapshot_def sectionHeap_def eval_nat_numeral isSection_def
      sectionSchema_def sectionTypeEnum_def objectOutput_def)

lemma resolve_sectionHeap:
  "resolveSharedSections_heap stubBuiltins (refConfig True) sectionHeap (HRef 6) =
     Inr (HRef 8, sectionHeap @
       [HArray [HRef 3, HRef 1],
        HObject [(''id'', HStr ''p-1''), (''type'', HStr ''home''), (''slug'', HStr ''/''),
                 (''sections'', HRef 7), (''sharedSectionRefs'', HRef 5)]])"
proof -
  have len: "length sectionHeap = 7" by (simp add: sectionHeap_def)
  have view: "view sectionHeap (HStr ''promo'') = JStr ''promo''"
    by (simp add: view_def snapshot_def)
  have fields: "getField sectionHeap (HRef 6) ''sharedSectionRefs'' = HRef 5"
    "getField sectionHeap (HRef 6) ''sections'' = HRef 4"
    by (simp_all add: getField_def deref_def sectionHeap_def)
  have "spreadElements sectionHeap (HRef 4) = Some [HRef 3]"
    by (simp add: spreadElements_def deref_def sectionHeap_def)
  then have existing: "existingSections sectionHeap (HRef 6) = Some [HRef 3]"
    by (simp add: existingSections_def fields)
  have cells: "deref sectionHeap (HRef 5) = Some (HArray [HStr ''promo''])"
    "spreadProperties sectionHeap (HRef 6) =
       [(''id'', HStr ''p-1''), (''type'', HStr ''home''), (''slug'', HStr ''/''),
        (''sections'', HRef 4), (''sharedSectionRefs'', HRef 5)]"
    by (simp_all add: spreadProperties_def deref_def sectionHeap_def)
  show ?thesis
    using promo_ref_valid
    by (simp add: resolveSharedSections_heap_def refConfig_def sharedPool_def seoConfigOf_def
        fields cells existing view alloc_def len)
qed

theorem resolveSharedSections_heap_frame_witness:
  "returned (resolveSharedSections_heap stubBuiltins (refConfig True) sectionHeap (HRef 6)) =
     Some (HRef 8) \<and>
   take (length sectionHeap)
     (stateOf (resolveSharedSections_heap stubBuiltins (refConfig True) sectionHeap (HRef 6))) =
     sectionHeap"
  using resolveSharedSections_heap_frame [OF resolve_sectionHeap] resolve_sectionHeap
  by simp

text \<open>
  Claim C6 as stated fails.  The section appended for the reference \<^verbatim>\<open>promo\<close> is the
  object at address 1, the one the pool holds: no copy is made.  With the flag off the
  call returns the reference it was given, not a new page.
\<close>

theorem resolveSharedSections_heap_shares:
  "stateOf (resolveSharedSections_heap stubBuiltins (refConfig True) sectionHeap (HRef 6)) ! 7 =
     HArray [HRef 3, HRef 1] \<and>
   map sharedPayload (sharedPool (refConfig True)) = [HRef 1] \<and>
   returned (resolveSharedSections_heap stubBuiltins (refConfig False) sectionHeap (HRef 6)) =
     Some (HRef 6)"
proof -
  have len: "length sectionHeap = 7" by (simp add: sectionHeap_def)
  have "stateOf (resolveSharedSections_heap stubBuiltins (refConfig True) sectionHeap (HRef 6)) ! 7 =
      HArray [HRef 3, HRef 1]"
    by (simp add: resolve_sectionHeap nth_append len)
  moreover have "map sharedPayload (sharedPool (refConfig True)) = [HRef 1]"
    by (simp add: refConfig_def sharedPool_def seoConfigOf_def)
  moreover have "returned (resolveSharedSections_heap stubBuiltins (refConfig False) sectionHeap
      (HRef 6)) = Some (HRef 6)"
    by (simp add: resolveSharedSections_heap_def refConfig_def)
  ultimately show ?thesis by simp
qed

lemma returned_Some: "returned r = Some x \<Longrightarrow> r = Inr (x, stateOf r)"
  by (cases r) auto

lemma instantiate_plain:
  "templateUtils_instantiate stubBuiltins siteConfig ''hero-basic'' [(''city'', JStr ''Sydney'')]
     (templateState []) =
   Inr (HRef 3, (templateState [])\<lparr>heap := templateHeap @
     [HObject [(''id'', HStr ''s-1''), (''type'', HStr ''hero''), (''fields'', HRef 1)]]\<rparr>)"
proof -
  have "spreadProperties templateHeap (HRef 2) =
      [(''id'', HStr ''s-1''), (''type'', HStr ''hero''), (''fields'', HRef 1)]"
    by (simp add: spreadProperties_def deref_def templateHeap_def)
  moreover have "length templateHeap = 3" by (simp add: templateHeap_def)
  ultimately show ?thesis
    by (simp add: templateUtils_instantiate_def templateState_def heroSkeleton_def registryGet_def
        alloc_def replaceVariables_def generateAIContent_def)
qed

text \<open>
  Claim C2 as stated fails.  For a template that declares no variable, the returned
  section is a new object whose \<^verbatim>\<open>fields\<close> is the object at address 1, the fields
  object of the template's skeleton.
\<close>

theorem instantiate_shares_fields:
  "returned (templateUtils_instantiate stubBuiltins siteConfig ''hero-basic''
               [(''city'', JStr ''Sydney'')] (templateState [])) = Some (HRef 3) \<and>
   getField (heap (stateOf (templateUtils_instantiate stubBuiltins siteConfig ''hero-basic''
               [(''city'', JStr ''Sydney'')] (templateState [])))) (HRef 3) ''fields'' = HRef 1 \<and>
   getField (heap (templateState [])) (template_section (heroSkeleton [])) ''fields'' = HRef 1"
proof -
  have len: "length templateHeap = 3" by (simp add: templateHeap_def)
  have "getField (templateHeap @
      [HObject [(''id'', HStr ''s-1''), (''type'', HStr ''hero''), (''fields'', HRef 1)]])
      (HRef 3) ''fields'' = HRef 1"
    by (simp add: getField_def deref_def len nth_append)
  then have result: "getField (heap (stateOf (templateUtils_instantiate stubBuiltins siteConfig
      ''hero-basic'' [(''city'', JStr ''Sydney'')] (templateState [])))) (HRef 3) ''fields'' = HRef 1"
    by (simp add: instantiate_plain)
  have "getField (heap (templateState [])) (template_section (heroSkeleton [])) ''fields'' = HRef 1"
    by (simp add: getField_def deref_def templateHeap_def templateState_def heroSkeleton_def)
  with result show ?thesis by (simp add: instantiate_plain)
qed

lemma instantiate_city:
  "returned (templateUtils_instantiate stubBuiltins siteConfig ''hero-basic''
               [(''city'', JStr ''Sydney'')] (templateState [cityVariable])) = Some (HRef 6)"
proof -
  have spread: "spreadProperties templateHeap (HRef 2) =
      [(''id'', HStr ''s-1''), (''type'', HStr ''hero''), (''fields'', HRef 1)]"
    by (simp add: spreadProperties_def deref_def templateHeap_def)
  have len: "length templateHeap = 3" by (simp add: templateHeap_def)
  have snap: "snapshot (templateHeap @
      [HObject [(''id'', HStr ''s-1''), (''type'', HStr ''hero''), (''fields'', HRef (Suc 0))]])
      (HRef 3) =
      Some (JObj [(''id'', JStr ''s-1''), (''type'', JStr ''hero''),
                  (''fields'', JObj [(''headline'',
                     JObj [(''id'', JStr ''headline''), (''type'', JStr ''text''),
                           (''value'', JStr ''Hello ${city}'')])])])"
    by (simp add: snapshot_def templateHeap_def eval_nat_numeral nth_append)
  show ?thesis
    by (simp add: templateUtils_instantiate_def templateState_def heroSkeleton_def registryGet_def
        alloc_def replaceVariables_def generateAIContent_def spread len snap stubBuiltins_def
        cityVariable_def)
qed

theorem instantiate_frame_witness:
  "returned (templateUtils_instantiate stubBuiltins siteConfig ''hero-basic''
               [(''city'', JStr ''Sydney'')] (templateState [cityVariable])) = Some (HRef 6) \<and>
   take (length templateHeap)
     (heap (stateOf (templateUtils_instantiate stubBuiltins siteConfig ''hero-basic''
               [(''city'', JStr ''Sydney'')] (templateState [cityVariable])))) = templateHeap \<and>
   \<not> reaches (heap (stateOf (templateUtils_instantiate stubBuiltins siteConfig ''hero-basic''
               [(''city'', JStr ''Sydney'')] (templateState [cityVariable])))) (HRef 6) 1"
proof -
  let ?r = "templateUtils_instantiate stubBuiltins siteConfig ''hero-basic''
      [(''city'', JStr ''Sydney'')] (templateState [cityVariable])"
  have reg: "templateRegistry (templateState [cityVariable]) ''hero-basic'' =
      Some (heroSkeleton [cityVariable])"
    by (simp add: templateState_def)
  have vars: "template_variables (heroSkeleton [cityVariable]) \<noteq> []"
    by (simp add: heroSkeleton_def)
  have heap0: "heap (templateState [cityVariable]) = templateHeap"
    by (simp add: templateState_def)
  have len: "length templateHeap = 3" by (simp add: templateHeap_def)
  from instantiate_frame [OF reg returned_Some [OF instantiate_city]] vars heap0 len
  have "take 3 (heap (stateOf ?r)) = templateHeap"
    and "\<forall>a. reaches (heap (stateOf ?r)) (HRef 6) a \<longrightarrow> 3 < a"
    by auto
  then have "take 3 (heap (stateOf ?r)) = templateHeap" and "\<not> reaches (heap (stateOf ?r)) (HRef 6) 1"
    by auto
  with instantiate_city len show ?thesis by simp
qed


end
